theory Spec2Isabelle
  imports Main
begin

section \<open>Grid navigation model of \<open>use-grid-navigation.ts\<close>\<close>

text \<open>
  The class \<open>GridNavigationModel\<close> is embedded as a record of its five fields and one
  function per method. A method takes the model and returns an \<open>outcome\<close>: the model
  after the call, the calls it made to the DOM and to the helpers of \<open>./utils\<close> in
  the order it made them, and the error it threw, if any. The helpers are not part of
  the class: a call of one is recorded with its arguments. Two of them, \<open>moveFocusBy\<close> and
  \<open>moveFocusIn\<close>, apply focus to an element, and the browser then dispatches \<open>focusout\<close>
  and \<open>focusin\<close> to the listeners of the table before the helper returns. Which events it
  dispatches depends on the page, so they are an argument of the method that calls the
  helper, and the focus handlers run on the model inside the call.
\<close>

subsection \<open>Data\<close>

text \<open>DOM nodes are known by their identity only.\<close>

type_synonym node = nat
type_synonym HTMLTableElement = node
type_synonym MutationObserver = nat

text \<open>
  Modelled from the spec: the interface \<open>FocusedCell\<close> of \<open>./interfaces\<close>, with the
  three fields this file reads.
\<close>

record FocusedCell =
  element :: node
  cellElement :: node
  widget :: bool

text \<open>
  A JavaScript number as the deltas use it: an integer or one of
  \<open>Number.NEGATIVE_INFINITY\<close>, \<open>Number.POSITIVE_INFINITY\<close>.
\<close>

datatype number = NEGATIVE_INFINITY | Finite int | POSITIVE_INFINITY

record Delta =
  y :: number
  x :: number

text \<open>
  The table \<open>KeyCode\<close> of \<open>internal/keycode\<close> is a parameter: the ten key codes
  the handler compares with. The field \<open>end\<close> is written \<open>end'\<close>.
\<close>

record KeyCode =
  up :: nat
  down :: nat
  left :: nat
  right :: nat
  pageUp :: nat
  pageDown :: nat
  home :: nat
  end' :: nat
  enter :: nat
  escape :: nat

definition f2Code :: nat where
  "f2Code = 113"

text \<open>\<open>keyCode\<close> is an \<open>unsigned long\<close> of the DOM: never negative.\<close>

record KeyboardEvent =
  keyCode :: nat
  ctrlKey :: bool
  altKey :: bool
  shiftKey :: bool
  metaKey :: bool

record FocusEvent =
  target :: node

datatype MutationRecordType = attributes | characterData | childList

record MutationRecord =
  type :: MutationRecordType
  removedNodes :: "node list"

datatype eventType = focusin | focusout | keydown

text \<open>
  The closure held in \<open>cleanup\<close>: the empty function of the field initialiser, or the
  function \<open>init\<close> builds, which captures the observer \<open>init\<close> created and reads
  \<open>this.table\<close> when it runs.
\<close>

datatype closure = Noop | Installed MutationObserver

record GridNavigationModel =
  pageSize' :: int
  table' :: "HTMLTableElement option"
  prevFocusedCell :: "FocusedCell option"
  focusedCell :: "FocusedCell option"
  cleanup :: closure

text \<open>
  The errors: the one the table getter throws, and the \<open>TypeError\<close> of reading a property
  of \<open>null\<close>.
\<close>

datatype error = InvariantViolation | TypeError

datatype call =
    AddEventListener HTMLTableElement eventType
  | RemoveEventListener HTMLTableElement eventType
  | NewMutationObserver MutationObserver
  | Observe MutationObserver HTMLTableElement
  | Disconnect MutationObserver
  | UpdateTableIndices HTMLTableElement "FocusedCell option"
  | MoveFocusBy HTMLTableElement FocusedCell Delta
  | MoveFocusIn FocusedCell
  | PreventDefault

record outcome =
  state :: GridNavigationModel
  calls :: "call list"
  thrown :: "error option"

subsection \<open>Construction and getters\<close>

definition initial :: GridNavigationModel where
  "initial = \<lparr>pageSize' = 0, table' = None, prevFocusedCell = None,
     focusedCell = None, cleanup = Noop\<rparr>"

definition pageSize :: "GridNavigationModel \<Rightarrow> int" where
  "pageSize m = pageSize' m"

definition table :: "GridNavigationModel \<Rightarrow> error + HTMLTableElement" where
  "table m = (case table' m of None \<Rightarrow> Inl InvariantViolation | Some t \<Rightarrow> Inr t)"

text \<open>A method that returns having called \<open>cs\<close>, and one that throws after them.\<close>

definition returns :: "GridNavigationModel \<Rightarrow> call list \<Rightarrow> outcome" where
  "returns m cs = \<lparr>state = m, calls = cs, thrown = None\<rparr>"

definition throws :: "GridNavigationModel \<Rightarrow> call list \<Rightarrow> error \<Rightarrow> outcome" where
  "throws m cs e = \<lparr>state = m, calls = cs, thrown = Some e\<rparr>"

text \<open>\<open>a ?? b\<close>\<close>

definition nullish :: "'a option \<Rightarrow> 'a option \<Rightarrow> 'a option" where
  "nullish a b = (case a of None \<Rightarrow> b | Some v \<Rightarrow> Some v)"

subsection \<open>Lifecycle\<close>

text \<open>
  \<open>init\<close>: the observer that \<open>new MutationObserver(this.onMutation)\<close> allocates is the
  argument \<open>obs\<close>. Every \<open>this.table\<close> goes through the getter.
\<close>

definition init :: "HTMLTableElement \<Rightarrow> MutationObserver \<Rightarrow> GridNavigationModel \<Rightarrow> outcome" where
  "init tbl obs m =
     (let m1 = m\<lparr>table' := Some tbl\<rparr> in
      case table m1 of
        Inl e \<Rightarrow> throws m1 [] e
      | Inr t \<Rightarrow>
          returns (m1\<lparr>cleanup := Installed obs\<rparr>)
            [AddEventListener t focusin, AddEventListener t focusout,
             AddEventListener t keydown, NewMutationObserver obs, Observe obs tbl,
             UpdateTableIndices t (nullish (focusedCell m1) (prevFocusedCell m1))])"

text \<open>\<open>destroy\<close> runs the closure in \<open>cleanup\<close> and assigns nothing.\<close>

definition destroy :: "GridNavigationModel \<Rightarrow> outcome" where
  "destroy m =
     (case cleanup m of
        Noop \<Rightarrow> returns m []
      | Installed obs \<Rightarrow>
          (case table m of
             Inl e \<Rightarrow> throws m [] e
           | Inr t \<Rightarrow>
               returns m
                 [RemoveEventListener t focusin, RemoveEventListener t focusout,
                  RemoveEventListener t keydown, Disconnect obs]))"

definition update :: "int \<Rightarrow> GridNavigationModel \<Rightarrow> outcome" where
  "update ps m = returns (m\<lparr>pageSize' := ps\<rparr>) []"

subsection \<open>Focus handlers\<close>

text \<open>\<open>findFocusinCell\<close> of \<open>./utils\<close> is a parameter.\<close>

definition onFocusin ::
  "(FocusEvent \<Rightarrow> FocusedCell option) \<Rightarrow> FocusEvent \<Rightarrow> GridNavigationModel \<Rightarrow> outcome" where
  "onFocusin findFocusinCell event m =
     (case findFocusinCell event of
        None \<Rightarrow> returns m []
      | Some cell \<Rightarrow>
          (let m1 = m\<lparr>prevFocusedCell := Some cell, focusedCell := Some cell\<rparr> in
           case table m1 of
             Inl e \<Rightarrow> throws m1 [] e
           | Inr t \<Rightarrow> returns m1 [UpdateTableIndices t (Some cell)]))"

definition onFocusout :: "GridNavigationModel \<Rightarrow> outcome" where
  "onFocusout m = returns (m\<lparr>focusedCell := None\<rparr>) []"

subsection \<open>Focus applied by a helper\<close>

text \<open>
  A focus event that the browser dispatches to the table while a helper applies focus. As
  in the event sequences below, a \<open>focusin\<close> carries what \<open>findFocusinCell\<close> returns for it.
\<close>

datatype nestedEvent = NestedFocusout | NestedFocusin FocusEvent "FocusedCell option"

text \<open>
  The focus handlers run one after the other on the model. An error thrown by a listener
  is reported by the browser and does not reach the code that applied focus, so that the
  next listener still runs; the calls of the listeners are collected.
\<close>

fun applyFocus :: "nestedEvent list \<Rightarrow> GridNavigationModel \<Rightarrow> GridNavigationModel \<times> call list" where
  "applyFocus [] m = (m, [])"
| "applyFocus (NestedFocusout # rest) m =
     (case applyFocus rest (state (onFocusout m)) of
        (m', cs) \<Rightarrow> (m', calls (onFocusout m) @ cs))"
| "applyFocus (NestedFocusin event cell # rest) m =
     (case applyFocus rest (state (onFocusin (\<lambda>_. cell) event m)) of
        (m', cs) \<Rightarrow> (m', calls (onFocusin (\<lambda>_. cell) event m) @ cs))"

subsection \<open>Key handler\<close>

text \<open>
  The two helper calls of the key handler, made after the calls \<open>pre\<close>; \<open>dispatched\<close> are
  the focus events the browser dispatches while the helper applies focus.
  \<open>moveFocusBy(this.table, from, d)\<close> reads the table first, so it throws before the
  helper is called when no table is bound.
\<close>

definition moveFocusBy ::
  "GridNavigationModel \<Rightarrow> call list \<Rightarrow> FocusedCell \<Rightarrow> Delta \<Rightarrow> nestedEvent list \<Rightarrow> outcome" where
  "moveFocusBy m pre from d dispatched =
     (case table m of
        Inl e \<Rightarrow> throws m pre e
      | Inr t \<Rightarrow>
          (case applyFocus dispatched m of
             (m', cs) \<Rightarrow> returns m' (pre @ MoveFocusBy t from d # cs)))"

definition moveFocusIn ::
  "GridNavigationModel \<Rightarrow> call list \<Rightarrow> FocusedCell \<Rightarrow> nestedEvent list \<Rightarrow> outcome" where
  "moveFocusIn m pre from dispatched =
     (case applyFocus dispatched m of
        (m', cs) \<Rightarrow> returns m' (pre @ MoveFocusIn from # cs))"

definition minExtreme :: number where
  "minExtreme = NEGATIVE_INFINITY"

definition maxExtreme :: number where
  "maxExtreme = POSITIVE_INFINITY"

text \<open>
  The handler from line 125 on, for the value of \<open>key\<close> computed before: the widget gate,
  then the \<open>switch\<close>, whose cases are tried in the order they are written. Every path
  calls a helper at most once.
\<close>

definition onKeydown_key ::
  "KeyCode \<Rightarrow> GridNavigationModel \<Rightarrow> FocusedCell \<Rightarrow> int \<Rightarrow> nestedEvent list \<Rightarrow> outcome" where
  "onKeydown_key kc m from key dispatched =
     (if widget from \<and> element from \<noteq> cellElement from then
        (if key = int (escape kc) \<or> key = int f2Code
         then moveFocusBy m [PreventDefault] from \<lparr>y = Finite 0, x = Finite 0\<rparr> dispatched
         else returns m [])
      else if key = int (up kc) then
        moveFocusBy m [PreventDefault] from \<lparr>y = Finite (- 1), x = Finite 0\<rparr> dispatched
      else if key = int (down kc) then
        moveFocusBy m [PreventDefault] from \<lparr>y = Finite 1, x = Finite 0\<rparr> dispatched
      else if key = int (left kc) then
        moveFocusBy m [PreventDefault] from \<lparr>y = Finite 0, x = Finite (- 1)\<rparr> dispatched
      else if key = int (right kc) then
        moveFocusBy m [PreventDefault] from \<lparr>y = Finite 0, x = Finite 1\<rparr> dispatched
      else if key = int (pageUp kc) then
        moveFocusBy m [PreventDefault] from \<lparr>y = Finite (- pageSize m), x = Finite 0\<rparr> dispatched
      else if key = int (pageDown kc) then
        moveFocusBy m [PreventDefault] from \<lparr>y = Finite (pageSize m), x = Finite 0\<rparr> dispatched
      else if key = int (home kc) then
        moveFocusBy m [PreventDefault] from \<lparr>y = Finite 0, x = minExtreme\<rparr> dispatched
      else if key = int (end' kc) then
        moveFocusBy m [PreventDefault] from \<lparr>y = Finite 0, x = maxExtreme\<rparr> dispatched
      else if key = - int (home kc) then
        moveFocusBy m [PreventDefault] from \<lparr>y = minExtreme, x = minExtreme\<rparr> dispatched
      else if key = - int (end' kc) then
        moveFocusBy m [PreventDefault] from \<lparr>y = maxExtreme, x = maxExtreme\<rparr> dispatched
      else if key = int (enter kc) then
        (if element from = cellElement from
         then moveFocusIn m [PreventDefault] from dispatched
         else returns m [])
      else if key = int (escape kc) then
        (if element from \<noteq> cellElement from
         then moveFocusBy m [PreventDefault] from \<lparr>y = Finite 0, x = Finite 0\<rparr> dispatched
         else returns m [])
      else if key = int f2Code then
        (if element from = cellElement from
         then moveFocusIn m [PreventDefault] from dispatched
         else moveFocusBy m [PreventDefault] from \<lparr>y = Finite 0, x = Finite 0\<rparr> dispatched)
      else returns m [])"

definition numModifiersPressed :: "KeyboardEvent \<Rightarrow> nat" where
  "numModifiersPressed event =
     (if ctrlKey event then 1 else 0) + (if altKey event then 1 else 0) +
     (if shiftKey event then 1 else 0) + (if metaKey event then 1 else 0)"

definition onKeydown ::
  "KeyCode \<Rightarrow> KeyboardEvent \<Rightarrow> nestedEvent list \<Rightarrow> GridNavigationModel \<Rightarrow> outcome" where
  "onKeydown kc event dispatched m =
     (case focusedCell m of
        None \<Rightarrow> returns m []
      | Some from \<Rightarrow>
          (if numModifiersPressed event = 1 \<and> ctrlKey event then
             onKeydown_key kc m from (- int (keyCode event)) dispatched
           else if numModifiersPressed event \<noteq> 0 then returns m []
           else onKeydown_key kc m from (int (keyCode event)) dispatched))"

subsection \<open>Mutation handler\<close>

text \<open>
  \<open>containsOrEqual\<close> of \<open>internal/utils/dom\<close> is a parameter. The handler can call
  \<open>moveFocusBy\<close> several times; \<open>dispatched\<close> lists, for the first call, the second and
  so on, the focus events the browser dispatches during it, and none for a call beyond the
  list. The loops return what is left of the list.
\<close>

definition nextDispatched :: "nestedEvent list list \<Rightarrow> nestedEvent list" where
  "nextDispatched dispatched = (case dispatched of [] \<Rightarrow> [] | first # later \<Rightarrow> first)"

definition prepend :: "call list \<Rightarrow> outcome \<Rightarrow> outcome" where
  "prepend cs out = \<lparr>state = state out, calls = cs @ calls out, thrown = thrown out\<rparr>"

text \<open>
  Both loops read \<open>this.prevFocusedCell\<close> and \<open>this.table\<close> anew for every removed node,
  from the model as the focus handlers have left it; they stop at the first error.
\<close>

fun removedNodesLoop ::
  "(node \<Rightarrow> node \<Rightarrow> bool) \<Rightarrow> GridNavigationModel \<Rightarrow> nestedEvent list list \<Rightarrow> node list
     \<Rightarrow> outcome \<times> nestedEvent list list" where
  "removedNodesLoop containsOrEqual m dispatched [] = (returns m [], dispatched)"
| "removedNodesLoop containsOrEqual m dispatched (removedNode # rest) =
     (case prevFocusedCell m of
        None \<Rightarrow> (throws m [] TypeError, dispatched)
      | Some prev \<Rightarrow>
          (if containsOrEqual removedNode (element prev) then
             (let moved = moveFocusBy m [] prev \<lparr>y = Finite 0, x = Finite 0\<rparr>
                    (nextDispatched dispatched)
              in case thrown moved of
                   Some e \<Rightarrow> (moved, dispatched)
                 | None \<Rightarrow>
                     (case removedNodesLoop containsOrEqual (state moved) (tl dispatched) rest of
                        (out, remaining) \<Rightarrow> (prepend (calls moved) out, remaining)))
           else removedNodesLoop containsOrEqual m dispatched rest))"

fun recordsLoop ::
  "(node \<Rightarrow> node \<Rightarrow> bool) \<Rightarrow> GridNavigationModel \<Rightarrow> nestedEvent list list
     \<Rightarrow> MutationRecord list \<Rightarrow> outcome \<times> nestedEvent list list" where
  "recordsLoop containsOrEqual m dispatched [] = (returns m [], dispatched)"
| "recordsLoop containsOrEqual m dispatched (record # rest) =
     (if type record = childList then
        (case removedNodesLoop containsOrEqual m dispatched (removedNodes record) of
           (inner, remaining) \<Rightarrow>
             (case thrown inner of
                Some e \<Rightarrow> (inner, remaining)
              | None \<Rightarrow>
                  (case recordsLoop containsOrEqual (state inner) remaining rest of
                     (out, remaining') \<Rightarrow> (prepend (calls inner) out, remaining'))))
      else recordsLoop containsOrEqual m dispatched rest)"

definition onMutation ::
  "(node \<Rightarrow> node \<Rightarrow> bool) \<Rightarrow> MutationRecord list \<Rightarrow> nestedEvent list list
     \<Rightarrow> GridNavigationModel \<Rightarrow> outcome" where
  "onMutation containsOrEqual mutationRecords dispatched m =
     (case prevFocusedCell m of
        None \<Rightarrow> returns m []
      | Some prev \<Rightarrow>
          (case recordsLoop containsOrEqual m dispatched mutationRecords of
             (looped, remaining) \<Rightarrow>
               (case thrown looped of
                  Some e \<Rightarrow> looped
                | None \<Rightarrow>
                    (case table (state looped) of
                       Inl e \<Rightarrow> throws (state looped) (calls looped) e
                     | Inr t \<Rightarrow>
                         returns (state looped)
                           (calls looped @
                            [UpdateTableIndices t
                               (nullish (focusedCell (state looped))
                                  (prevFocusedCell (state looped)))])))))"

subsection \<open>Event sequences\<close>

text \<open>
  What can happen to a model: a call of one of its three public methods, or the browser
  calling one of its four handlers. A \<open>focusin\<close> event carries what \<open>findFocusinCell\<close>
  returns for it, since that depends on the page at the time of the event; a \<open>keydown\<close>
  event and a batch of mutation records carry the focus events dispatched while the
  handler's helper calls apply focus.
\<close>

datatype event =
    Init HTMLTableElement MutationObserver
  | Destroy
  | Update int
  | Focusin FocusEvent "FocusedCell option"
  | Focusout
  | Keydown KeyboardEvent "nestedEvent list"
  | Mutation "MutationRecord list" "nestedEvent list list"

fun handle :: "KeyCode \<Rightarrow> (node \<Rightarrow> node \<Rightarrow> bool) \<Rightarrow> event \<Rightarrow> GridNavigationModel \<Rightarrow> outcome" where
  "handle kc ce (Init tbl obs) m = init tbl obs m"
| "handle kc ce Destroy m = destroy m"
| "handle kc ce (Update ps) m = update ps m"
| "handle kc ce (Focusin event cell) m = onFocusin (\<lambda>_. cell) event m"
| "handle kc ce Focusout m = onFocusout m"
| "handle kc ce (Keydown event dispatched) m = onKeydown kc event dispatched m"
| "handle kc ce (Mutation mutationRecords dispatched) m =
     onMutation ce mutationRecords dispatched m"

text \<open>
  A handler that throws leaves the model as it was when it threw, and later events are
  handled from there.
\<close>

fun run :: "KeyCode \<Rightarrow> (node \<Rightarrow> node \<Rightarrow> bool) \<Rightarrow> event list \<Rightarrow> GridNavigationModel \<Rightarrow> GridNavigationModel" where
  "run kc ce [] m = m"
| "run kc ce (e # es) m = run kc ce es (state (handle kc ce e m))"

text \<open>
  The four handlers are private and only \<open>init\<close> hands them to the browser, so the
  browser calls one only after an \<open>init\<close> has completed, that is when \<open>cleanup\<close> holds
  the closure of an \<open>init\<close>. The public methods can be called at any time.
\<close>

fun isHandlerEvent :: "event \<Rightarrow> bool" where
  "isHandlerEvent (Init tbl obs) = False"
| "isHandlerEvent Destroy = False"
| "isHandlerEvent (Update ps) = False"
| "isHandlerEvent (Focusin event cell) = True"
| "isHandlerEvent Focusout = True"
| "isHandlerEvent (Keydown event dispatched) = True"
| "isHandlerEvent (Mutation mutationRecords dispatched) = True"

fun admissible :: "KeyCode \<Rightarrow> (node \<Rightarrow> node \<Rightarrow> bool) \<Rightarrow> event list \<Rightarrow> GridNavigationModel \<Rightarrow> bool" where
  "admissible kc ce [] m = True"
| "admissible kc ce (e # es) m =
     ((isHandlerEvent e \<longrightarrow> cleanup m \<noteq> Noop) \<and> admissible kc ce es (state (handle kc ce e m)))"

fun isInit :: "event \<Rightarrow> bool" where
  "isInit (Init tbl obs) = True"
| "isInit e = False"

fun isSuccessfulFocusin :: "event \<Rightarrow> bool" where
  "isSuccessfulFocusin (Focusin event (Some cell)) = True"
| "isSuccessfulFocusin e = False"

text \<open>The two calls that apply focus, and the call the focus handlers make.\<close>

fun isRefresh :: "call \<Rightarrow> bool" where
  "isRefresh (UpdateTableIndices t cell) = True"
| "isRefresh c = False"

fun isMove :: "call \<Rightarrow> bool" where
  "isMove (MoveFocusBy t from d) = True"
| "isMove (MoveFocusIn from) = True"
| "isMove c = False"

text \<open>A key pressed alone, and with Ctrl as the only modifier.\<close>

definition press :: "nat \<Rightarrow> KeyboardEvent" where
  "press c = \<lparr>keyCode = c, ctrlKey = False, altKey = False, shiftKey = False, metaKey = False\<rparr>"

definition pressCtrl :: "nat \<Rightarrow> KeyboardEvent" where
  "pressCtrl c = \<lparr>keyCode = c, ctrlKey = True, altKey = False, shiftKey = False, metaKey = False\<rparr>"

text \<open>
  What the theorems ask of the key codes: the ten codes and F2's are those of eleven
  different keys, all positive.
\<close>

definition keyCodesDistinct :: "KeyCode \<Rightarrow> bool" where
  "keyCodesDistinct kc =
     (distinct [up kc, down kc, left kc, right kc, pageUp kc, pageDown kc, home kc, end' kc,
        enter kc, escape kc, f2Code] \<and>
      list_all (\<lambda>c. 0 < c) [up kc, down kc, left kc, right kc, pageUp kc, pageDown kc,
        home kc, end' kc, enter kc, escape kc])"

text \<open>The key codes browsers report for these ten keys, for examples.\<close>

definition exampleKeyCode :: KeyCode where
  "exampleKeyCode = \<lparr>up = 38, down = 40, left = 37, right = 39, pageUp = 33, pageDown = 34,
     home = 36, end' = 35, enter = 13, escape = 27\<rparr>"

text \<open>
  What holds of a model after any admissible sequence of events: when \<open>cleanup\<close> holds the
  closure of an \<open>init\<close>, or a cell has been focused, a table is bound; and a model with a
  focused cell has a previous cell.
\<close>

definition attached :: "GridNavigationModel \<Rightarrow> bool" where
  "attached m =
     ((cleanup m \<noteq> Noop \<longrightarrow> table' m \<noteq> None) \<and>
      (prevFocusedCell m \<noteq> None \<longrightarrow> table' m \<noteq> None) \<and>
      (focusedCell m \<noteq> None \<longrightarrow> prevFocusedCell m \<noteq> None))"

text \<open>A focused cell comes with a previous cell.\<close>

definition paired :: "GridNavigationModel \<Rightarrow> bool" where
  "paired m = (focusedCell m \<noteq> None \<longrightarrow> prevFocusedCell m \<noteq> None)"

text \<open>
  What the focus handlers keep of a model \<open>m\<close>, however often they run: the three fields
  they do not assign, a previous cell once there is one, and that a focused cell comes
  with a previous cell.
\<close>

definition kept :: "GridNavigationModel \<Rightarrow> GridNavigationModel \<Rightarrow> bool" where
  "kept m m' =
     (table' m' = table' m \<and> cleanup m' = cleanup m \<and> pageSize' m' = pageSize' m \<and>
      (prevFocusedCell m \<noteq> None \<longrightarrow> prevFocusedCell m' \<noteq> None) \<and>
      ((focusedCell m \<noteq> None \<longrightarrow> prevFocusedCell m \<noteq> None) \<longrightarrow>
       (focusedCell m' \<noteq> None \<longrightarrow> prevFocusedCell m' \<noteq> None)))"

text \<open>
  The outcome of a handler that made the calls \<open>cs\<close>, the last of which applied focus while
  the browser dispatched the events \<open>dispatched\<close>: the model is as the focus handlers left
  it, and their calls follow \<open>cs\<close>.
\<close>

definition withFocus :: "nestedEvent list \<Rightarrow> GridNavigationModel \<Rightarrow> call list \<Rightarrow> outcome" where
  "withFocus dispatched m cs =
     (case applyFocus dispatched m of (m', cs') \<Rightarrow> returns m' (cs @ cs'))"

text \<open>
  The key handler, when it does not throw, makes no call at all, or \<open>preventDefault\<close> and
  right after it one move, followed only by the calls of the focus handlers that the move
  set off.
\<close>

definition preventsBeforeMove :: "nestedEvent list \<Rightarrow> GridNavigationModel \<Rightarrow> outcome \<Rightarrow> bool" where
  "preventsBeforeMove dispatched m out =
     (thrown out = None \<and>
      (case calls out of
         [] \<Rightarrow> True
       | [c] \<Rightarrow> False
       | c # c' # cs \<Rightarrow> c = PreventDefault \<and> isMove c' \<and> cs = snd (applyFocus dispatched m)))"

text \<open>
  The same without the condition on the error: the key handler can also throw after
  \<open>preventDefault\<close>, when no table is bound.
\<close>

definition keydownCalls :: "nestedEvent list \<Rightarrow> GridNavigationModel \<Rightarrow> outcome \<Rightarrow> bool" where
  "keydownCalls dispatched m out =
     (case calls out of
        [] \<Rightarrow> True
      | [c] \<Rightarrow> c = PreventDefault
      | c # c' # cs \<Rightarrow> c = PreventDefault \<and> isMove c' \<and> cs = snd (applyFocus dispatched m))"

text \<open>The model after the key handler is the one before it or the one the focus handlers left.\<close>

definition keydownFrame :: "nestedEvent list \<Rightarrow> GridNavigationModel \<Rightarrow> outcome \<Rightarrow> bool" where
  "keydownFrame dispatched m out =
     (state out = m \<or> state out = fst (applyFocus dispatched m))"

text \<open>
  Section 4.4 of the specification in its own words: the removed nodes of the records of
  type \<open>childList\<close>, in order; for each of them that contains or equals the previously
  focused element, a zero-delta move from the previous cell, the previous cell being the
  one of the model at that moment. The result is the model, the calls and the dispatched
  events that are left.
\<close>

definition removedNodesOf :: "MutationRecord list \<Rightarrow> node list" where
  "removedNodesOf mutationRecords =
     concat (map removedNodes (filter (\<lambda>record. type record = childList) mutationRecords))"

fun reconcile ::
  "(node \<Rightarrow> node \<Rightarrow> bool) \<Rightarrow> HTMLTableElement \<Rightarrow> node list \<Rightarrow> nestedEvent list list
     \<Rightarrow> GridNavigationModel \<Rightarrow> GridNavigationModel \<times> call list \<times> nestedEvent list list" where
  "reconcile containsOrEqual t [] dispatched m = (m, [], dispatched)"
| "reconcile containsOrEqual t (removedNode # rest) dispatched m =
     (case prevFocusedCell m of
        None \<Rightarrow> (m, [], dispatched)
      | Some prev \<Rightarrow>
          (if containsOrEqual removedNode (element prev) then
             (case applyFocus (nextDispatched dispatched) m of
                (m1, cs1) \<Rightarrow>
                  (case reconcile containsOrEqual t rest (tl dispatched) m1 of
                     (m2, cs2, remaining) \<Rightarrow>
                       (m2, MoveFocusBy t prev \<lparr>y = Finite 0, x = Finite 0\<rparr> # cs1 @ cs2,
                        remaining)))
           else reconcile containsOrEqual t rest dispatched m))"

text \<open>
  When no focus event is dispatched, these are the moves: one from the previous cell for
  every such removed node.
\<close>

definition reconcileMoves ::
  "(node \<Rightarrow> node \<Rightarrow> bool) \<Rightarrow> HTMLTableElement \<Rightarrow> FocusedCell \<Rightarrow> MutationRecord list \<Rightarrow> call list" where
  "reconcileMoves containsOrEqual t prev mutationRecords =
     map (\<lambda>removedNode. MoveFocusBy t prev \<lparr>y = Finite 0, x = Finite 0\<rparr>)
       (filter (\<lambda>removedNode. containsOrEqual removedNode (element prev))
          (removedNodesOf mutationRecords))"

text \<open>
  Examples: a cell that has focus itself, the cell next to it, a widget focused inside its
  cell, and that cell focused itself; the model attached to table 2, with page size 10 and
  the cell focused; the same after focus has left the table; the model attached and the
  widget focused; the focus events of a move to the next cell, and of one from the widget
  to its cell; a batch of mutation records; two key events with modifiers.
\<close>

definition exampleCell :: FocusedCell where
  "exampleCell = \<lparr>element = 5, cellElement = 5, widget = False\<rparr>"

definition exampleNextCell :: FocusedCell where
  "exampleNextCell = \<lparr>element = 8, cellElement = 8, widget = False\<rparr>"

definition exampleWidget :: FocusedCell where
  "exampleWidget = \<lparr>element = 7, cellElement = 6, widget = True\<rparr>"

definition exampleWidgetCell :: FocusedCell where
  "exampleWidgetCell = \<lparr>element = 6, cellElement = 6, widget = True\<rparr>"

definition exampleEvents :: "event list" where
  "exampleEvents = [Init 2 0, Update 10, Focusin \<lparr>target = 5\<rparr> (Some exampleCell)]"

definition exampleLeftEvents :: "event list" where
  "exampleLeftEvents = [Init 2 0, Focusin \<lparr>target = 5\<rparr> (Some exampleCell), Focusout]"

definition exampleWidgetEvents :: "event list" where
  "exampleWidgetEvents = [Init 2 0, Focusin \<lparr>target = 7\<rparr> (Some exampleWidget)]"

definition exampleDispatched :: "nestedEvent list" where
  "exampleDispatched = [NestedFocusout, NestedFocusin \<lparr>target = 8\<rparr> (Some exampleNextCell)]"

definition exampleToCell :: "nestedEvent list" where
  "exampleToCell = [NestedFocusout, NestedFocusin \<lparr>target = 6\<rparr> (Some exampleWidgetCell)]"

definition exampleRecords :: "MutationRecord list" where
  "exampleRecords =
     [\<lparr>type = childList, removedNodes = [4, 5]\<rparr>, \<lparr>type = attributes, removedNodes = [5]\<rparr>,
      \<lparr>type = childList, removedNodes = [5]\<rparr>]"

definition altUp :: KeyboardEvent where
  "altUp = \<lparr>keyCode = 38, ctrlKey = False, altKey = True, shiftKey = False, metaKey = False\<rparr>"

definition ctrlShiftEnd :: KeyboardEvent where
  "ctrlShiftEnd = \<lparr>keyCode = 35, ctrlKey = True, altKey = False, shiftKey = True, metaKey = False\<rparr>"

section \<open>Properties\<close>

subsection \<open>Outcomes\<close>

lemma returns_sel [simp]:
  "state (returns m cs) = m" "calls (returns m cs) = cs" "thrown (returns m cs) = None"
  by (simp_all add: returns_def)

lemma throws_sel [simp]:
  "state (throws m cs e) = m" "calls (throws m cs e) = cs" "thrown (throws m cs e) = Some e"
  by (simp_all add: throws_def)

lemma prepend_sel [simp]:
  "state (prepend cs out) = state out" "calls (prepend cs out) = cs @ calls out"
  "thrown (prepend cs out) = thrown out"
  by (simp_all add: prepend_def)

lemma prepend_returns: "prepend cs (returns m cs') = returns m (cs @ cs')"
  by (simp add: prepend_def returns_def)

lemma table_bound: "table' m = Some t \<Longrightarrow> table m = Inr t"
  by (simp add: table_def)

lemma table_unbound: "table' m = None \<Longrightarrow> table m = Inl InvariantViolation"
  by (simp add: table_def)

lemma withFocus_nil: "withFocus [] m cs = returns m cs"
  by (simp add: withFocus_def)

subsection \<open>The model after the methods that apply no focus\<close>

lemma state_destroy: "state (destroy m) = m"
  by (simp add: destroy_def split: closure.splits sum.splits)

lemma state_init: "state (init tbl obs m) = m\<lparr>table' := Some tbl, cleanup := Installed obs\<rparr>"
  by (simp add: init_def table_def)

lemma state_update: "state (update ps m) = m\<lparr>pageSize' := ps\<rparr>"
  by (simp add: update_def)

lemma state_onFocusout: "state (onFocusout m) = m\<lparr>focusedCell := None\<rparr>"
  by (simp add: onFocusout_def)

lemma state_onFocusin:
  "state (onFocusin f event m) =
     (case f event of None \<Rightarrow> m
      | Some cell \<Rightarrow> m\<lparr>prevFocusedCell := Some cell, focusedCell := Some cell\<rparr>)"
  by (simp add: onFocusin_def Let_def split: option.splits sum.splits)

lemmas state_simps = state_destroy state_init state_update state_onFocusout state_onFocusin

subsection \<open>What the focus handlers keep\<close>

lemma kept_refl: "kept m m"
  by (simp add: kept_def)

lemma kept_trans: "kept m m1 \<Longrightarrow> kept m1 m2 \<Longrightarrow> kept m m2"
  by (simp add: kept_def)

lemma kept_onFocusout: "kept m (state (onFocusout m))"
  by (simp add: kept_def state_onFocusout)

lemma kept_onFocusin: "kept m (state (onFocusin f event m))"
  by (simp add: kept_def state_onFocusin split: option.splits)

lemma kept_applyFocus: "kept m (fst (applyFocus dispatched m))"
proof (induction dispatched arbitrary: m)
  case Nil
  show ?case by (simp add: kept_refl)
next
  case (Cons d rest)
  show ?case
  proof (cases d)
    case NestedFocusout
    from kept_trans [OF kept_onFocusout Cons.IH [of "state (onFocusout m)"]]
    show ?thesis by (simp add: NestedFocusout case_prod_beta)
  next
    case (NestedFocusin event cell)
    from kept_trans [OF kept_onFocusin Cons.IH [of "state (onFocusin (\<lambda>_. cell) event m)"]]
    show ?thesis by (simp add: NestedFocusin case_prod_beta)
  qed
qed

lemma refresh_onFocusin: "list_all isRefresh (calls (onFocusin f event m))"
  by (simp add: onFocusin_def Let_def split: option.splits sum.splits)

lemma refresh_applyFocus: "list_all isRefresh (snd (applyFocus dispatched m))"
proof (induction dispatched arbitrary: m)
  case Nil
  show ?case by simp
next
  case (Cons d rest)
  show ?case
  proof (cases d)
    case NestedFocusout
    from Cons.IH [of "state (onFocusout m)"]
    show ?thesis by (simp add: NestedFocusout onFocusout_def case_prod_beta)
  next
    case (NestedFocusin event cell)
    from Cons.IH [of "state (onFocusin (\<lambda>_. cell) event m)"] refresh_onFocusin [of "\<lambda>_. cell" event m]
    show ?thesis by (simp add: NestedFocusin case_prod_beta)
  qed
qed

lemma kept_moveFocusBy: "kept m (state (moveFocusBy m pre from d dispatched))"
  using kept_applyFocus [of m dispatched]
  by (simp add: moveFocusBy_def kept_refl case_prod_beta split: sum.splits)

lemma kept_moveFocusIn: "kept m (state (moveFocusIn m pre from dispatched))"
  using kept_applyFocus [of m dispatched]
  by (simp add: moveFocusIn_def case_prod_beta)

lemma kept_if: "kept m (state a) \<Longrightarrow> kept m (state b) \<Longrightarrow> kept m (state (if c then a else b))"
  by simp

lemma kept_returns: "kept m (state (returns m cs))"
  by (simp add: kept_refl)

lemma kept_onKeydown_key: "kept m (state (onKeydown_key kc m from key dispatched))"
  unfolding onKeydown_key_def
  by (intro kept_if kept_moveFocusBy kept_moveFocusIn kept_returns)

lemma kept_onKeydown: "kept m (state (onKeydown kc event dispatched m))"
  by (simp add: onKeydown_def kept_onKeydown_key kept_refl split: option.splits)

lemma kept_removedNodesLoop: "kept m (state (fst (removedNodesLoop ce m dispatched ns)))"
proof (induction ns arbitrary: m dispatched)
  case Nil
  show ?case by (simp add: kept_refl)
next
  case (Cons n ns)
  show ?case
  proof (cases "prevFocusedCell m")
    case None
    then show ?thesis by (simp add: kept_refl)
  next
    case (Some prev)
    let ?moved = "moveFocusBy m [] prev \<lparr>y = Finite 0, x = Finite 0\<rparr> (nextDispatched dispatched)"
    have moved: "kept m (state ?moved)" by (rule kept_moveFocusBy)
    from kept_trans [OF moved Cons.IH [of "state ?moved" "tl dispatched"]]
    have "kept m (state (fst (removedNodesLoop ce (state ?moved) (tl dispatched) ns)))" .
    with moved Cons.IH [of m dispatched] show ?thesis
      by (simp add: Some Let_def case_prod_beta split: option.splits)
  qed
qed

lemma kept_recordsLoop: "kept m (state (fst (recordsLoop ce m dispatched recs)))"
proof (induction recs arbitrary: m dispatched)
  case Nil
  show ?case by (simp add: kept_refl)
next
  case (Cons r recs)
  obtain inner remaining where inner: "removedNodesLoop ce m dispatched (removedNodes r) = (inner, remaining)"
    by (cases "removedNodesLoop ce m dispatched (removedNodes r)")
  from kept_removedNodesLoop [of m ce dispatched "removedNodes r"] inner
  have k1: "kept m (state inner)" by simp
  from kept_trans [OF k1 Cons.IH [of "state inner" remaining]]
  have "kept m (state (fst (recordsLoop ce (state inner) remaining recs)))" .
  with k1 Cons.IH [of m dispatched] show ?case
    by (simp add: inner case_prod_beta split: option.splits)
qed

lemma kept_onMutation: "kept m (state (onMutation ce recs dispatched m))"
  using kept_recordsLoop [of m ce dispatched recs]
  by (simp add: onMutation_def kept_refl case_prod_beta split: option.splits sum.splits)

lemma onKeydown_unfocused: "focusedCell m = None \<Longrightarrow> onKeydown kc event dispatched m = returns m []"
  by (simp add: onKeydown_def)

lemma onMutation_unfocused:
  "prevFocusedCell m = None \<Longrightarrow> onMutation ce recs dispatched m = returns m []"
  by (simp add: onMutation_def)

subsection \<open>A table is bound whenever a handler runs\<close>

lemma kept_attached:
  assumes "attached m" and "kept m m'" and "prevFocusedCell m \<noteq> None"
  shows "attached m'"
  using assms by (simp add: attached_def kept_def)

lemma attached_handle:
  assumes "attached m" and "isHandlerEvent e \<longrightarrow> cleanup m \<noteq> Noop"
  shows "attached (state (handle kc ce e m))"
proof (cases e)
  case (Keydown event dispatched)
  show ?thesis
  proof (cases "focusedCell m")
    case None
    with assms(1) show ?thesis by (simp add: Keydown onKeydown_unfocused)
  next
    case (Some fc)
    with assms(1) have "prevFocusedCell m \<noteq> None" by (simp add: attached_def)
    from kept_attached [OF assms(1) kept_onKeydown this] show ?thesis by (simp add: Keydown)
  qed
next
  case (Mutation recs dispatched)
  show ?thesis
  proof (cases "prevFocusedCell m")
    case None
    with assms(1) show ?thesis by (simp add: Mutation onMutation_unfocused)
  next
    case (Some prev)
    then have "prevFocusedCell m \<noteq> None" by simp
    from kept_attached [OF assms(1) kept_onMutation this] show ?thesis by (simp add: Mutation)
  qed
qed (insert assms, auto simp: attached_def state_simps split: option.splits)

lemma attached_run: "attached m \<Longrightarrow> admissible kc ce evs m \<Longrightarrow> attached (run kc ce evs m)"
  by (induction evs arbitrary: m) (simp_all add: attached_handle)

lemma attached_initial: "attached initial"
  by (simp add: attached_def initial_def)

lemma admissible_attached: "admissible kc ce evs initial \<Longrightarrow> attached (run kc ce evs initial)"
  by (rule attached_run [OF attached_initial])

lemma focused_bound:
  assumes "admissible kc ce evs initial" and "focusedCell (run kc ce evs initial) = Some from"
  obtains t where "table' (run kc ce evs initial) = Some t"
  using admissible_attached [OF assms(1)] assms(2) by (auto simp: attached_def)

lemma prev_bound:
  assumes "admissible kc ce evs initial" and "prevFocusedCell (run kc ce evs initial) \<noteq> None"
  obtains t where "table' (run kc ce evs initial) = Some t"
  using admissible_attached [OF assms(1)] assms(2) by (auto simp: attached_def)

lemma installed_bound:
  assumes "admissible kc ce evs initial" and "cleanup (run kc ce evs initial) \<noteq> Noop"
  obtains t where "table' (run kc ce evs initial) = Some t"
  using admissible_attached [OF assms(1)] assms(2) by (auto simp: attached_def)

subsection \<open>Sequences without \<open>init\<close>, and the previous cell\<close>

lemma handle_no_init:
  assumes "\<not> isInit e"
  shows "table' (state (handle kc ce e m)) = table' m \<and>
     cleanup (state (handle kc ce e m)) = cleanup m"
proof (cases e)
  case (Keydown event dispatched)
  from kept_onKeydown [of m kc event dispatched] show ?thesis by (simp add: Keydown kept_def)
next
  case (Mutation recs dispatched)
  from kept_onMutation [of m ce recs dispatched] show ?thesis by (simp add: Mutation kept_def)
qed (insert assms, simp_all add: state_simps split: option.splits)

lemma run_no_init:
  "\<not> list_ex isInit evs \<Longrightarrow>
     table' (run kc ce evs m) = table' m \<and> cleanup (run kc ce evs m) = cleanup m"
proof (induction evs arbitrary: m)
  case Nil
  show ?case by simp
next
  case (Cons e es)
  from Cons.prems have e: "\<not> isInit e" and es: "\<not> list_ex isInit es" by simp_all
  from handle_no_init [OF e, of kc ce m] Cons.IH [OF es, of "state (handle kc ce e m)"]
  show ?case by simp
qed

lemma prev_kept_handle:
  "prevFocusedCell m \<noteq> None \<Longrightarrow> prevFocusedCell (state (handle kc ce e m)) \<noteq> None"
proof (cases e)
  case (Keydown event dispatched)
  assume "prevFocusedCell m \<noteq> None"
  with kept_onKeydown [of m kc event dispatched] show ?thesis by (simp add: Keydown kept_def)
next
  case (Mutation recs dispatched)
  assume "prevFocusedCell m \<noteq> None"
  with kept_onMutation [of m ce recs dispatched] show ?thesis by (simp add: Mutation kept_def)
qed (simp_all add: state_simps split: option.splits)

lemma paired_handle: "paired m \<Longrightarrow> paired (state (handle kc ce e m))"
proof (cases e)
  case (Keydown event dispatched)
  assume "paired m"
  with kept_onKeydown [of m kc event dispatched] show ?thesis
    by (simp add: Keydown kept_def paired_def)
next
  case (Mutation recs dispatched)
  assume "paired m"
  with kept_onMutation [of m ce recs dispatched] show ?thesis
    by (simp add: Mutation kept_def paired_def)
qed (auto simp: paired_def state_simps split: option.splits)

lemma prev_handle:
  assumes "paired m"
  shows "prevFocusedCell (state (handle kc ce e m)) = None \<longleftrightarrow>
     prevFocusedCell m = None \<and> \<not> isSuccessfulFocusin e"
proof (cases "prevFocusedCell m")
  case (Some prev)
  with prev_kept_handle [of m kc ce e] show ?thesis by simp
next
  case None
  with assms have unfocused: "focusedCell m = None" by (simp add: paired_def)
  show ?thesis
  proof (cases e)
    case (Focusin event cell)
    with None show ?thesis by (cases cell) (simp_all add: state_simps)
  qed (simp_all add: None state_simps onKeydown_unfocused [OF unfocused]
      onMutation_unfocused [OF None])
qed

lemma prev_run:
  "paired m \<Longrightarrow>
     prevFocusedCell (run kc ce evs m) = None \<longleftrightarrow>
       prevFocusedCell m = None \<and> \<not> list_ex isSuccessfulFocusin evs"
proof (induction evs arbitrary: m)
  case Nil
  show ?case by simp
next
  case (Cons e es)
  from Cons.IH [OF paired_handle [OF Cons.prems], of kc ce e] prev_handle [OF Cons.prems, of kc ce e]
  show ?case by auto
qed

lemma paired_initial: "paired initial"
  by (simp add: paired_def initial_def)

subsection \<open>Examples\<close>

lemma example_run:
  "run exampleKeyCode (=) exampleEvents initial =
     \<lparr>pageSize' = 10, table' = Some 2, prevFocusedCell = Some exampleCell,
      focusedCell = Some exampleCell, cleanup = Installed 0\<rparr>"
  by (simp add: exampleEvents_def state_simps initial_def)

lemma example_admissible: "admissible exampleKeyCode (=) exampleEvents initial"
  by (simp add: exampleEvents_def state_simps initial_def)

lemma example_left_run:
  "run exampleKeyCode (=) exampleLeftEvents initial =
     \<lparr>pageSize' = 0, table' = Some 2, prevFocusedCell = Some exampleCell,
      focusedCell = None, cleanup = Installed 0\<rparr>"
  by (simp add: exampleLeftEvents_def state_simps initial_def)

lemma example_left_admissible: "admissible exampleKeyCode (=) exampleLeftEvents initial"
  by (simp add: exampleLeftEvents_def state_simps initial_def)

lemma example_widget_run:
  "run exampleKeyCode (=) exampleWidgetEvents initial =
     \<lparr>pageSize' = 0, table' = Some 2, prevFocusedCell = Some exampleWidget,
      focusedCell = Some exampleWidget, cleanup = Installed 0\<rparr>"
  by (simp add: exampleWidgetEvents_def state_simps initial_def)

lemma example_widget_admissible: "admissible exampleKeyCode (=) exampleWidgetEvents initial"
  by (simp add: exampleWidgetEvents_def state_simps initial_def)

lemma example_keyCodes: "keyCodesDistinct exampleKeyCode"
  by (simp add: keyCodesDistinct_def exampleKeyCode_def f2Code_def)

lemma example_applyFocus:
  "applyFocus exampleDispatched (run exampleKeyCode (=) exampleEvents initial) =
     (\<lparr>pageSize' = 10, table' = Some 2, prevFocusedCell = Some exampleNextCell,
       focusedCell = Some exampleNextCell, cleanup = Installed 0\<rparr>,
      [UpdateTableIndices 2 (Some exampleNextCell)])"
  unfolding example_run
  by (simp add: exampleDispatched_def onFocusout_def onFocusin_def table_def)

lemma example_widget_applyFocus:
  "applyFocus exampleToCell (run exampleKeyCode (=) exampleWidgetEvents initial) =
     (\<lparr>pageSize' = 0, table' = Some 2, prevFocusedCell = Some exampleWidgetCell,
       focusedCell = Some exampleWidgetCell, cleanup = Installed 0\<rparr>,
      [UpdateTableIndices 2 (Some exampleWidgetCell)])"
  unfolding example_widget_run
  by (simp add: exampleToCell_def onFocusout_def onFocusin_def table_def)

subsection \<open>The previous cell is never cleared\<close>

text \<open>
  Claim C7. After any sequence of events from the initial model, \<open>prevFocusedCell\<close> is
  null exactly when the sequence holds no \<open>focusin\<close> whose target resolved to a cell. No
  method or handler takes a model whose \<open>prevFocusedCell\<close> is set to one where it is null.
  \<open>onFocusout\<close> only sets \<open>focusedCell\<close> to null and leaves \<open>prevFocusedCell\<close> as it was.
\<close>

theorem prevFocusedCell_persists:
  "(prevFocusedCell (run kc ce evs initial) = None \<longleftrightarrow> \<not> list_ex isSuccessfulFocusin evs) \<and>
   (prevFocusedCell m \<noteq> None \<longrightarrow> prevFocusedCell (state (handle kc ce e m)) \<noteq> None) \<and>
   onFocusout m = returns (m\<lparr>focusedCell := None\<rparr>) [] \<and>
   prevFocusedCell (state (onFocusout m)) = prevFocusedCell m"
proof (intro conjI)
  have "prevFocusedCell initial = None" by (simp add: initial_def)
  with prev_run [OF paired_initial, of kc ce evs]
  show "prevFocusedCell (run kc ce evs initial) = None \<longleftrightarrow> \<not> list_ex isSuccessfulFocusin evs"
    by simp
  show "prevFocusedCell m \<noteq> None \<longrightarrow> prevFocusedCell (state (handle kc ce e m)) \<noteq> None"
    by (simp add: prev_kept_handle)
  show "onFocusout m = returns (m\<lparr>focusedCell := None\<rparr>) []"
    by (simp add: onFocusout_def)
  show "prevFocusedCell (state (onFocusout m)) = prevFocusedCell m"
    by (simp add: state_onFocusout)
qed

text \<open>
  Without a focus event the previous cell is null; after one it is that cell, and a
  later \<open>focusout\<close> and \<open>destroy\<close> keep it.
\<close>

theorem prevFocusedCell_persists_witness:
  "prevFocusedCell (run exampleKeyCode (=) [Init 1 0, Focusout, Destroy] initial) = None \<and>
   prevFocusedCell
     (run exampleKeyCode (=)
        [Init 1 0, Focusin \<lparr>target = 5\<rparr> (Some exampleCell), Focusout, Destroy] initial)
     = Some exampleCell \<and>
   prevFocusedCell (state (handle exampleKeyCode (=) Focusout
     (initial\<lparr>prevFocusedCell := Some exampleCell, focusedCell := Some exampleCell\<rparr>)))
     = Some exampleCell"
  using prevFocusedCell_persists [of exampleKeyCode "(=)" "[Init 1 0, Focusout, Destroy]"
      "initial\<lparr>prevFocusedCell := Some exampleCell, focusedCell := Some exampleCell\<rparr>" Focusout]
  by (simp add: state_simps)

subsection \<open>The table getter\<close>

text \<open>
  Claim C8 says that the bound table fails again when accessed after \<open>destroy\<close>. It does
  not: \<open>destroy\<close> runs the cleanup closure, which assigns no field, so after \<open>init\<close> of
  table 1 and \<open>destroy\<close> the getter returns table 1.
\<close>

theorem table_after_destroy_counterexample:
  "table (state (destroy (state (init 1 0 initial)))) = Inr 1"
  by (simp add: state_simps table_def)

text \<open>
  Claim C8, amended. After any sequence of events without an \<open>init\<close>, the table getter
  throws the invariant violation. After \<open>init\<close> and then \<open>destroy\<close> the table is still
  bound, and the getter returns the table given to \<open>init\<close>.
\<close>

theorem table_getter:
  "(\<not> list_ex isInit evs \<longrightarrow> table (run kc ce evs initial) = Inl InvariantViolation) \<and>
   table (state (destroy (state (init tbl obs m)))) = Inr tbl"
  by (simp add: run_no_init table_def initial_def state_simps)

text \<open>A sequence without \<open>init\<close>, after which the getter throws.\<close>

theorem table_getter_witness:
  "\<not> list_ex isInit [Destroy, Update 3, Focusout, Keydown (press 38) []] \<and>
   table (run exampleKeyCode (=) [Destroy, Update 3, Focusout, Keydown (press 38) []] initial)
     = Inl InvariantViolation"
  using table_getter [of "[Destroy, Update 3, Focusout, Keydown (press 38) []]" exampleKeyCode "(=)"]
  by simp

subsection \<open>Destroying twice\<close>

text \<open>
  Claim C9 says that a second \<open>destroy\<close> after \<open>init\<close> finds an empty cleanup and does
  nothing. It does not: after \<open>init\<close> and \<open>destroy\<close> the field \<open>cleanup\<close> still holds the
  closure of \<open>init\<close>, and the second \<open>destroy\<close> calls \<open>removeEventListener\<close> three times
  and \<open>disconnect\<close> once more.
\<close>

theorem destroy_twice_counterexample:
  "cleanup (state (destroy (state (init 1 0 initial)))) \<noteq> Noop \<and>
   calls (destroy (state (destroy (state (init 1 0 initial))))) =
     [RemoveEventListener 1 focusin, RemoveEventListener 1 focusout,
      RemoveEventListener 1 keydown, Disconnect 0]"
  by (simp add: state_simps destroy_def table_def)

text \<open>
  Claim C9, amended. \<open>destroy\<close> before any \<open>init\<close> makes no call, throws nothing and
  leaves the model unchanged. \<open>destroy\<close> after \<open>init\<close> does not throw and leaves the model
  unchanged, the cleanup closure included; a second \<open>destroy\<close> right after it does exactly
  what the first did: it does not throw, and it calls \<open>removeEventListener\<close> for the three
  events and \<open>disconnect\<close> again.
\<close>

theorem destroy_repeats_cleanup:
  "(\<not> list_ex isInit evs \<longrightarrow>
      destroy (run kc ce evs initial) = returns (run kc ce evs initial) []) \<and>
   destroy (state (init tbl obs m)) =
     returns (state (init tbl obs m))
       [RemoveEventListener tbl focusin, RemoveEventListener tbl focusout,
        RemoveEventListener tbl keydown, Disconnect obs] \<and>
   destroy (state (destroy (state (init tbl obs m)))) = destroy (state (init tbl obs m))"
  by (simp add: run_no_init initial_def state_simps destroy_def table_def)

text \<open>A sequence without \<open>init\<close>, after which \<open>destroy\<close> does nothing.\<close>

theorem destroy_repeats_cleanup_witness:
  "\<not> list_ex isInit [Update 3, Destroy] \<and>
   destroy (run exampleKeyCode (=) [Update 3, Destroy] initial) =
     returns (initial\<lparr>pageSize' := 3\<rparr>) []"
  using destroy_repeats_cleanup [of "[Update 3, Destroy]" exampleKeyCode "(=)"]
  by (simp add: state_simps)

subsection \<open>Focus entering the table\<close>

text \<open>
  Claim C6. A \<open>focusin\<close> event reaches a model, which can only be when the listeners of
  an \<open>init\<close> are there. When its target does not resolve to a cell, the model is unchanged
  and nothing is called, so no index is refreshed. When it resolves to a cell,
  \<open>focusedCell\<close> and \<open>prevFocusedCell\<close> are both set to that cell and
  \<open>updateTableIndices\<close> is called for the bound table and the cell.
\<close>

theorem onFocusin_updates:
  assumes "admissible kc ce evs initial" and "m = run kc ce evs initial"
    and "cleanup m \<noteq> Noop"
  shows "(findFocusinCell event = None \<longrightarrow> onFocusin findFocusinCell event m = returns m []) \<and>
    (\<forall>cell. findFocusinCell event = Some cell \<longrightarrow>
       (\<exists>t. table' m = Some t \<and>
          onFocusin findFocusinCell event m =
            returns (m\<lparr>prevFocusedCell := Some cell, focusedCell := Some cell\<rparr>)
              [UpdateTableIndices t (Some cell)]))"
proof -
  from assms(1,3) obtain t where t: "table' m = Some t"
    unfolding assms(2) by (rule installed_bound)
  then show ?thesis
    by (simp add: onFocusin_def table_def)
qed

text \<open>A target that does not resolve and one that resolves to the example cell.\<close>

theorem onFocusin_updates_witness:
  "admissible exampleKeyCode (=) [Init 2 0] initial \<and>
   cleanup (run exampleKeyCode (=) [Init 2 0] initial) \<noteq> Noop \<and>
   onFocusin (\<lambda>_. None) \<lparr>target = 9\<rparr> (run exampleKeyCode (=) [Init 2 0] initial) =
     returns (run exampleKeyCode (=) [Init 2 0] initial) [] \<and>
   onFocusin (\<lambda>_. Some exampleCell) \<lparr>target = 5\<rparr> (run exampleKeyCode (=) [Init 2 0] initial) =
     returns
       ((run exampleKeyCode (=) [Init 2 0] initial)
          \<lparr>prevFocusedCell := Some exampleCell, focusedCell := Some exampleCell\<rparr>)
       [UpdateTableIndices 2 (Some exampleCell)]"
proof -
  have a: "admissible exampleKeyCode (=) [Init 2 0] initial"
    by simp
  have c: "cleanup (run exampleKeyCode (=) [Init 2 0] initial) \<noteq> Noop"
    and t: "table' (run exampleKeyCode (=) [Init 2 0] initial) = Some 2"
    by (simp_all add: state_simps initial_def)
  from onFocusin_updates [OF a refl c, of "\<lambda>_. None" "\<lparr>target = 9\<rparr>"]
    onFocusin_updates [OF a refl c, of "\<lambda>_. Some exampleCell" "\<lparr>target = 5\<rparr>"]
  show ?thesis
    using a c t by simp
qed

subsection \<open>Key codes\<close>

lemma keyCodes_later_earlier:
  assumes "keyCodesDistinct kc"
  shows "distinct [f2Code, escape kc, enter kc, end' kc, home kc, pageDown kc, pageUp kc,
     right kc, left kc, down kc, up kc]"
proof -
  from assms have "distinct [up kc, down kc, left kc, right kc, pageUp kc, pageDown kc,
      home kc, end' kc, enter kc, escape kc, f2Code]"
    unfolding keyCodesDistinct_def by (rule conjunct1)
  hence "distinct (rev [up kc, down kc, left kc, right kc, pageUp kc, pageDown kc,
      home kc, end' kc, enter kc, escape kc, f2Code])"
    by (simp only: distinct_rev)
  thus ?thesis by (simp only: rev.simps append.simps)
qed

lemma keyCodes_pos:
  assumes "keyCodesDistinct kc"
  shows "0 < home kc" "0 < end' kc" "0 < escape kc"
proof -
  from assms have "list_all (\<lambda>c. 0 < c) [up kc, down kc, left kc, right kc, pageUp kc,
      pageDown kc, home kc, end' kc, enter kc, escape kc]"
    unfolding keyCodesDistinct_def by (rule conjunct2)
  thus "0 < home kc" "0 < end' kc" "0 < escape kc"
    by simp_all
qed

lemma neg_code: "0 < a \<Longrightarrow> (- int a = int b) = False" "0 < a \<Longrightarrow> (int b = - int a) = False"
  by arith+

lemma press_simps [simp]:
  "numModifiersPressed (press c) = 0" "keyCode (press c) = c"
  "numModifiersPressed (pressCtrl c) = 1" "ctrlKey (pressCtrl c)" "keyCode (pressCtrl c) = c"
  by (simp_all add: numModifiersPressed_def press_def pressCtrl_def)

lemma onKeydown_press:
  "focusedCell m = Some from \<Longrightarrow>
     onKeydown kc (press c) dispatched m = onKeydown_key kc m from (int c) dispatched"
  by (simp add: onKeydown_def)

lemma onKeydown_pressCtrl:
  "focusedCell m = Some from \<Longrightarrow>
     onKeydown kc (pressCtrl c) dispatched m = onKeydown_key kc m from (- int c) dispatched"
  by (simp add: onKeydown_def)

lemma moveFocusBy_bound:
  "table' m = Some t \<Longrightarrow>
     moveFocusBy m pre from d dispatched = withFocus dispatched m (pre @ [MoveFocusBy t from d])"
  by (simp add: moveFocusBy_def withFocus_def table_bound)

lemma moveFocusIn_withFocus:
  "moveFocusIn m pre from dispatched = withFocus dispatched m (pre @ [MoveFocusIn from])"
  by (simp add: moveFocusIn_def withFocus_def)

lemma cell_level_key:
  assumes "table' m = Some t" "element from = cellElement from" "keyCodesDistinct kc"
  shows "onKeydown_key kc m from (int (up kc)) dispatched =
      withFocus dispatched m
        [PreventDefault, MoveFocusBy t from \<lparr>y = Finite (- 1), x = Finite 0\<rparr>]"
    and "onKeydown_key kc m from (int (down kc)) dispatched =
      withFocus dispatched m
        [PreventDefault, MoveFocusBy t from \<lparr>y = Finite 1, x = Finite 0\<rparr>]"
    and "onKeydown_key kc m from (int (left kc)) dispatched =
      withFocus dispatched m
        [PreventDefault, MoveFocusBy t from \<lparr>y = Finite 0, x = Finite (- 1)\<rparr>]"
    and "onKeydown_key kc m from (int (right kc)) dispatched =
      withFocus dispatched m
        [PreventDefault, MoveFocusBy t from \<lparr>y = Finite 0, x = Finite 1\<rparr>]"
    and "onKeydown_key kc m from (int (pageUp kc)) dispatched =
      withFocus dispatched m
        [PreventDefault, MoveFocusBy t from \<lparr>y = Finite (- pageSize m), x = Finite 0\<rparr>]"
    and "onKeydown_key kc m from (int (pageDown kc)) dispatched =
      withFocus dispatched m
        [PreventDefault, MoveFocusBy t from \<lparr>y = Finite (pageSize m), x = Finite 0\<rparr>]"
    and "onKeydown_key kc m from (int (home kc)) dispatched =
      withFocus dispatched m
        [PreventDefault, MoveFocusBy t from \<lparr>y = Finite 0, x = NEGATIVE_INFINITY\<rparr>]"
    and "onKeydown_key kc m from (int (end' kc)) dispatched =
      withFocus dispatched m
        [PreventDefault, MoveFocusBy t from \<lparr>y = Finite 0, x = POSITIVE_INFINITY\<rparr>]"
    and "onKeydown_key kc m from (- int (home kc)) dispatched =
      withFocus dispatched m
        [PreventDefault,
         MoveFocusBy t from \<lparr>y = NEGATIVE_INFINITY, x = NEGATIVE_INFINITY\<rparr>]"
    and "onKeydown_key kc m from (- int (end' kc)) dispatched =
      withFocus dispatched m
        [PreventDefault,
         MoveFocusBy t from \<lparr>y = POSITIVE_INFINITY, x = POSITIVE_INFINITY\<rparr>]"
  using assms(1,2) keyCodes_later_earlier [OF assms(3)] keyCodes_pos [OF assms(3)]
  by (simp_all add: onKeydown_key_def moveFocusBy_bound minExtreme_def maxExtreme_def neg_code)

subsection \<open>Commands at cell level\<close>

text \<open>
  Claim C1. A keydown event reaches a model whose focused cell is set and whose focused
  element is the cell itself. With no modifier, Up and Down call \<open>preventDefault\<close> and then
  \<open>moveFocusBy\<close> with the delta \<open>(-1, 0)\<close> and \<open>(+1, 0)\<close>, Left and Right with \<open>(0, -1)\<close>
  and \<open>(0, +1)\<close>, Page Up and Page Down with \<open>(-pageSize, 0)\<close> and \<open>(+pageSize, 0)\<close>, Home
  and End with \<open>(0, -\<infinity>)\<close> and \<open>(0, +\<infinity>)\<close>; with Ctrl as the only modifier, Home and End
  with \<open>(-\<infinity>, -\<infinity>)\<close> and \<open>(+\<infinity>, +\<infinity>)\<close>. The move is from the focused cell, on the bound
  table. The handler itself calls nothing else; what follows the move are the calls of the
  focus handlers that run while the move applies focus, and none when no focus event is
  dispatched. The key codes are those of different keys.
\<close>

theorem cell_level_commands:
  assumes "admissible kc ce evs initial" and "m = run kc ce evs initial"
    and "focusedCell m = Some from" and "element from = cellElement from"
    and "keyCodesDistinct kc"
  shows "\<exists>t. table' m = Some t \<and>
    onKeydown kc (press (up kc)) dispatched m =
      withFocus dispatched m
        [PreventDefault, MoveFocusBy t from \<lparr>y = Finite (- 1), x = Finite 0\<rparr>] \<and>
    onKeydown kc (press (down kc)) dispatched m =
      withFocus dispatched m
        [PreventDefault, MoveFocusBy t from \<lparr>y = Finite 1, x = Finite 0\<rparr>] \<and>
    onKeydown kc (press (left kc)) dispatched m =
      withFocus dispatched m
        [PreventDefault, MoveFocusBy t from \<lparr>y = Finite 0, x = Finite (- 1)\<rparr>] \<and>
    onKeydown kc (press (right kc)) dispatched m =
      withFocus dispatched m
        [PreventDefault, MoveFocusBy t from \<lparr>y = Finite 0, x = Finite 1\<rparr>] \<and>
    onKeydown kc (press (pageUp kc)) dispatched m =
      withFocus dispatched m
        [PreventDefault, MoveFocusBy t from \<lparr>y = Finite (- pageSize m), x = Finite 0\<rparr>] \<and>
    onKeydown kc (press (pageDown kc)) dispatched m =
      withFocus dispatched m
        [PreventDefault, MoveFocusBy t from \<lparr>y = Finite (pageSize m), x = Finite 0\<rparr>] \<and>
    onKeydown kc (press (home kc)) dispatched m =
      withFocus dispatched m
        [PreventDefault, MoveFocusBy t from \<lparr>y = Finite 0, x = NEGATIVE_INFINITY\<rparr>] \<and>
    onKeydown kc (press (end' kc)) dispatched m =
      withFocus dispatched m
        [PreventDefault, MoveFocusBy t from \<lparr>y = Finite 0, x = POSITIVE_INFINITY\<rparr>] \<and>
    onKeydown kc (pressCtrl (home kc)) dispatched m =
      withFocus dispatched m
        [PreventDefault,
         MoveFocusBy t from \<lparr>y = NEGATIVE_INFINITY, x = NEGATIVE_INFINITY\<rparr>] \<and>
    onKeydown kc (pressCtrl (end' kc)) dispatched m =
      withFocus dispatched m
        [PreventDefault,
         MoveFocusBy t from \<lparr>y = POSITIVE_INFINITY, x = POSITIVE_INFINITY\<rparr>]"
proof -
  from assms(1,3) obtain t where t: "table' m = Some t"
    unfolding assms(2) by (rule focused_bound)
  note key = cell_level_key [OF t assms(4,5)]
  show ?thesis
    by (rule exI [of _ t])
      (simp only: t onKeydown_press [OF assms(3)] onKeydown_pressCtrl [OF assms(3)] key simp_thms)
qed

text \<open>
  Up, Page Down with page size 10 and Ctrl+End on the focused example cell, with no focus
  event dispatched; Right, with focus moving to the next cell.
\<close>

theorem cell_level_commands_witness:
  "admissible exampleKeyCode (=) exampleEvents initial \<and>
   focusedCell (run exampleKeyCode (=) exampleEvents initial) = Some exampleCell \<and>
   element exampleCell = cellElement exampleCell \<and>
   keyCodesDistinct exampleKeyCode \<and>
   onKeydown exampleKeyCode (press 38) [] (run exampleKeyCode (=) exampleEvents initial) =
     returns (run exampleKeyCode (=) exampleEvents initial)
       [PreventDefault, MoveFocusBy 2 exampleCell \<lparr>y = Finite (- 1), x = Finite 0\<rparr>] \<and>
   onKeydown exampleKeyCode (press 34) [] (run exampleKeyCode (=) exampleEvents initial) =
     returns (run exampleKeyCode (=) exampleEvents initial)
       [PreventDefault, MoveFocusBy 2 exampleCell \<lparr>y = Finite 10, x = Finite 0\<rparr>] \<and>
   onKeydown exampleKeyCode (pressCtrl 35) [] (run exampleKeyCode (=) exampleEvents initial) =
     returns (run exampleKeyCode (=) exampleEvents initial)
       [PreventDefault,
        MoveFocusBy 2 exampleCell \<lparr>y = POSITIVE_INFINITY, x = POSITIVE_INFINITY\<rparr>] \<and>
   onKeydown exampleKeyCode (press 39) exampleDispatched
       (run exampleKeyCode (=) exampleEvents initial) =
     returns
       \<lparr>pageSize' = 10, table' = Some 2, prevFocusedCell = Some exampleNextCell,
        focusedCell = Some exampleNextCell, cleanup = Installed 0\<rparr>
       [PreventDefault, MoveFocusBy 2 exampleCell \<lparr>y = Finite 0, x = Finite 1\<rparr>,
        UpdateTableIndices 2 (Some exampleNextCell)]"
proof -
  have f: "focusedCell (run exampleKeyCode (=) exampleEvents initial) = Some exampleCell"
    by (simp add: example_run)
  have e: "element exampleCell = cellElement exampleCell"
    by (simp add: exampleCell_def)
  note cl = cell_level_commands [OF example_admissible refl f e example_keyCodes]
  from cl [of "[]"]
  obtain t where t: "table' (run exampleKeyCode (=) exampleEvents initial) = Some t"
    and up: "onKeydown exampleKeyCode (press (up exampleKeyCode)) []
        (run exampleKeyCode (=) exampleEvents initial) =
      withFocus [] (run exampleKeyCode (=) exampleEvents initial)
        [PreventDefault, MoveFocusBy t exampleCell \<lparr>y = Finite (- 1), x = Finite 0\<rparr>]"
    and pd: "onKeydown exampleKeyCode (press (pageDown exampleKeyCode)) []
        (run exampleKeyCode (=) exampleEvents initial) =
      withFocus [] (run exampleKeyCode (=) exampleEvents initial)
        [PreventDefault,
         MoveFocusBy t exampleCell
           \<lparr>y = Finite (pageSize (run exampleKeyCode (=) exampleEvents initial)), x = Finite 0\<rparr>]"
    and ce: "onKeydown exampleKeyCode (pressCtrl (end' exampleKeyCode)) []
        (run exampleKeyCode (=) exampleEvents initial) =
      withFocus [] (run exampleKeyCode (=) exampleEvents initial)
        [PreventDefault,
         MoveFocusBy t exampleCell \<lparr>y = POSITIVE_INFINITY, x = POSITIVE_INFINITY\<rparr>]"
    by blast
  from cl [of exampleDispatched]
  obtain t' where t': "table' (run exampleKeyCode (=) exampleEvents initial) = Some t'"
    and ri: "onKeydown exampleKeyCode (press (right exampleKeyCode)) exampleDispatched
        (run exampleKeyCode (=) exampleEvents initial) =
      withFocus exampleDispatched (run exampleKeyCode (=) exampleEvents initial)
        [PreventDefault, MoveFocusBy t' exampleCell \<lparr>y = Finite 0, x = Finite 1\<rparr>]"
    by blast
  from t have t2: "t = 2" by (simp add: example_run)
  from t' have t2': "t' = 2" by (simp add: example_run)
  have ps: "pageSize (run exampleKeyCode (=) exampleEvents initial) = 10"
    by (simp add: example_run pageSize_def)
  have kc: "up exampleKeyCode = 38" "pageDown exampleKeyCode = 34" "end' exampleKeyCode = 35"
    "right exampleKeyCode = 39"
    by (simp_all add: exampleKeyCode_def)
  from up pd ce ri show ?thesis
    unfolding t2 t2' ps kc withFocus_nil
    using example_admissible f e example_keyCodes
    by (simp add: withFocus_def example_applyFocus)
qed

subsection \<open>Keys inside a widget\<close>

lemma widget_gate:
  "widget from \<Longrightarrow> element from \<noteq> cellElement from \<Longrightarrow>
     onKeydown_key kc m from key dispatched =
       (if key = int (escape kc) \<or> key = int f2Code
        then moveFocusBy m [PreventDefault] from \<lparr>y = Finite 0, x = Finite 0\<rparr> dispatched
        else returns m [])"
  by (simp add: onKeydown_key_def)

text \<open>
  Claim C2. A keydown event reaches a model whose focused element is a widget inside its
  cell, not the cell itself. Escape and F2, pressed without modifier, call
  \<open>preventDefault\<close> and then \<open>moveFocusBy\<close> from the focused cell with the delta \<open>(0, 0)\<close>,
  followed only by what the focus handlers call while the move applies focus. Every other
  event makes no call at all and leaves the model as it is.
\<close>

theorem widget_level_keys:
  assumes "admissible kc ce evs initial" and "m = run kc ce evs initial"
    and "focusedCell m = Some from" and "widget from" and "element from \<noteq> cellElement from"
    and "0 < escape kc"
  shows "\<exists>t. table' m = Some t \<and>
    onKeydown kc event dispatched m =
      (if numModifiersPressed event = 0 \<and> (keyCode event = escape kc \<or> keyCode event = f2Code)
       then withFocus dispatched m
         [PreventDefault, MoveFocusBy t from \<lparr>y = Finite 0, x = Finite 0\<rparr>]
       else returns m [])"
proof -
  from assms(1,3) obtain t where t: "table' m = Some t"
    unfolding assms(2) by (rule focused_bound)
  have f2: "0 < f2Code" by (simp add: f2Code_def)
  have "onKeydown kc event dispatched m =
      (if numModifiersPressed event = 0 \<and> (keyCode event = escape kc \<or> keyCode event = f2Code)
       then withFocus dispatched m
         [PreventDefault, MoveFocusBy t from \<lparr>y = Finite 0, x = Finite 0\<rparr>]
       else returns m [])"
    using assms(6) f2
    by (simp add: onKeydown_def assms(3) widget_gate [OF assms(4,5)] moveFocusBy_bound [OF t])
  with t show ?thesis by simp
qed

text \<open>
  Escape, with no focus event dispatched, and F2, with focus moving to the cell, on the
  focused example widget; Up and Ctrl+Escape, which do nothing.
\<close>

theorem widget_level_keys_witness:
  "admissible exampleKeyCode (=) exampleWidgetEvents initial \<and>
   focusedCell (run exampleKeyCode (=) exampleWidgetEvents initial) = Some exampleWidget \<and>
   widget exampleWidget \<and> element exampleWidget \<noteq> cellElement exampleWidget \<and>
   0 < escape exampleKeyCode \<and>
   onKeydown exampleKeyCode (press 27) [] (run exampleKeyCode (=) exampleWidgetEvents initial) =
     returns (run exampleKeyCode (=) exampleWidgetEvents initial)
       [PreventDefault, MoveFocusBy 2 exampleWidget \<lparr>y = Finite 0, x = Finite 0\<rparr>] \<and>
   onKeydown exampleKeyCode (press 113) exampleToCell
       (run exampleKeyCode (=) exampleWidgetEvents initial) =
     returns
       \<lparr>pageSize' = 0, table' = Some 2, prevFocusedCell = Some exampleWidgetCell,
        focusedCell = Some exampleWidgetCell, cleanup = Installed 0\<rparr>
       [PreventDefault, MoveFocusBy 2 exampleWidget \<lparr>y = Finite 0, x = Finite 0\<rparr>,
        UpdateTableIndices 2 (Some exampleWidgetCell)] \<and>
   onKeydown exampleKeyCode (press 38) exampleToCell
       (run exampleKeyCode (=) exampleWidgetEvents initial) =
     returns (run exampleKeyCode (=) exampleWidgetEvents initial) [] \<and>
   onKeydown exampleKeyCode (pressCtrl 27) exampleToCell
       (run exampleKeyCode (=) exampleWidgetEvents initial) =
     returns (run exampleKeyCode (=) exampleWidgetEvents initial) []"
proof -
  have f: "focusedCell (run exampleKeyCode (=) exampleWidgetEvents initial) = Some exampleWidget"
    by (simp add: example_widget_run)
  have w: "widget exampleWidget" and ne: "element exampleWidget \<noteq> cellElement exampleWidget"
    by (simp_all add: exampleWidget_def)
  have p: "0 < escape exampleKeyCode"
    by (simp add: exampleKeyCode_def)
  note wl = widget_level_keys [OF example_widget_admissible refl f w ne p]
  have t: "table' (run exampleKeyCode (=) exampleWidgetEvents initial) = Some 2"
    by (simp add: example_widget_run)
  have kc: "escape exampleKeyCode = 27"
    by (simp add: exampleKeyCode_def)
  from wl [of "press 27" "[]"] wl [of "press 113" exampleToCell]
    wl [of "press 38" exampleToCell] wl [of "pressCtrl 27" exampleToCell]
  show ?thesis
    using example_widget_admissible f w ne p
    by (simp add: t kc f2Code_def withFocus_def example_widget_applyFocus)
qed

subsection \<open>Modifiers\<close>

text \<open>
  Claim C3. A keydown event reaches a model whose focused cell is set. When exactly one
  modifier is pressed and it is Ctrl, the event is handled with the negated key code. When
  exactly one modifier other than Ctrl is pressed, or two or more are, which is whenever
  Alt, Shift or Meta is pressed, the handler makes no call: no move and no
  \<open>preventDefault\<close>. Without modifier the event is handled with its key code.
\<close>

theorem modifier_handling:
  assumes "focusedCell m = Some from"
  shows "(numModifiersPressed event = 1 \<and> ctrlKey event \<longrightarrow>
      onKeydown kc event dispatched m =
        onKeydown_key kc m from (- int (keyCode event)) dispatched) \<and>
    (numModifiersPressed event = 1 \<and> \<not> ctrlKey event \<or> 2 \<le> numModifiersPressed event \<longrightarrow>
      onKeydown kc event dispatched m = returns m []) \<and>
    (altKey event \<or> shiftKey event \<or> metaKey event \<longrightarrow>
      onKeydown kc event dispatched m = returns m []) \<and>
    (numModifiersPressed event = 0 \<longrightarrow>
      onKeydown kc event dispatched m =
        onKeydown_key kc m from (int (keyCode event)) dispatched)"
  by (auto simp: onKeydown_def assms numModifiersPressed_def)

text \<open>Ctrl+Home jumps to the first cell of the grid; Alt+Up and Ctrl+Shift+End do nothing.\<close>

theorem modifier_handling_witness:
  "focusedCell (run exampleKeyCode (=) exampleEvents initial) = Some exampleCell \<and>
   numModifiersPressed (pressCtrl 36) = 1 \<and> ctrlKey (pressCtrl 36) \<and>
   onKeydown exampleKeyCode (pressCtrl 36) [] (run exampleKeyCode (=) exampleEvents initial) =
     returns (run exampleKeyCode (=) exampleEvents initial)
       [PreventDefault,
        MoveFocusBy 2 exampleCell \<lparr>y = NEGATIVE_INFINITY, x = NEGATIVE_INFINITY\<rparr>] \<and>
   numModifiersPressed altUp = 1 \<and> \<not> ctrlKey altUp \<and>
   onKeydown exampleKeyCode altUp exampleDispatched
       (run exampleKeyCode (=) exampleEvents initial) =
     returns (run exampleKeyCode (=) exampleEvents initial) [] \<and>
   2 \<le> numModifiersPressed ctrlShiftEnd \<and>
   onKeydown exampleKeyCode ctrlShiftEnd exampleDispatched
       (run exampleKeyCode (=) exampleEvents initial) =
     returns (run exampleKeyCode (=) exampleEvents initial) []"
proof -
  have f: "focusedCell (run exampleKeyCode (=) exampleEvents initial) = Some exampleCell"
    by (simp add: example_run)
  have a: "numModifiersPressed altUp = 1" "\<not> ctrlKey altUp"
    and s: "2 \<le> numModifiersPressed ctrlShiftEnd"
    by (simp_all add: altUp_def ctrlShiftEnd_def numModifiersPressed_def)
  have k: "onKeydown_key exampleKeyCode (run exampleKeyCode (=) exampleEvents initial)
        exampleCell (- 36) [] =
      returns (run exampleKeyCode (=) exampleEvents initial)
        [PreventDefault,
         MoveFocusBy 2 exampleCell \<lparr>y = NEGATIVE_INFINITY, x = NEGATIVE_INFINITY\<rparr>]"
    unfolding example_run
    by (simp add: onKeydown_key_def exampleKeyCode_def exampleCell_def moveFocusBy_bound
        withFocus_nil minExtreme_def)
  from modifier_handling [OF f, of "pressCtrl 36" exampleKeyCode "[]"]
    modifier_handling [OF f, of altUp exampleKeyCode exampleDispatched]
    modifier_handling [OF f, of ctrlShiftEnd exampleKeyCode exampleDispatched]
  show ?thesis
    using f a s k by simp
qed

subsection \<open>Default prevention\<close>

lemma shape_if:
  "preventsBeforeMove dispatched m a \<Longrightarrow> preventsBeforeMove dispatched m b \<Longrightarrow>
     preventsBeforeMove dispatched m (if c then a else b)"
  by simp

lemma shape_moveFocusBy:
  "table' m = Some t \<Longrightarrow>
     preventsBeforeMove dispatched m (moveFocusBy m [PreventDefault] from d dispatched)"
  by (simp add: preventsBeforeMove_def moveFocusBy_def table_bound case_prod_beta)

lemma shape_moveFocusIn:
  "preventsBeforeMove dispatched m (moveFocusIn m [PreventDefault] from dispatched)"
  by (simp add: preventsBeforeMove_def moveFocusIn_def case_prod_beta)

lemma shape_returns: "preventsBeforeMove dispatched m (returns m [])"
  by (simp add: preventsBeforeMove_def)

lemma shape_onKeydown_key:
  "table' m = Some t \<Longrightarrow> preventsBeforeMove dispatched m (onKeydown_key kc m from key dispatched)"
  unfolding onKeydown_key_def
  by (intro shape_if shape_moveFocusBy shape_moveFocusIn shape_returns)

lemma shape_onKeydown:
  "table' m = Some t \<Longrightarrow> preventsBeforeMove dispatched m (onKeydown kc event dispatched m)"
  by (simp add: onKeydown_def shape_onKeydown_key shape_returns split: option.splits)

lemma enter_on_cell:
  assumes "element from = cellElement from" and "keyCodesDistinct kc"
  shows "onKeydown_key kc m from (int (enter kc)) dispatched =
     withFocus dispatched m [PreventDefault, MoveFocusIn from]"
  using assms(1) keyCodes_later_earlier [OF assms(2)] keyCodes_pos [OF assms(2)]
  by (simp add: onKeydown_key_def neg_code moveFocusIn_withFocus)

lemma f2_on_cell:
  assumes "element from = cellElement from" and "keyCodesDistinct kc"
  shows "onKeydown_key kc m from (int f2Code) dispatched =
     withFocus dispatched m [PreventDefault, MoveFocusIn from]"
  using assms(1) keyCodes_later_earlier [OF assms(2)] keyCodes_pos [OF assms(2)]
  by (simp add: onKeydown_key_def neg_code moveFocusIn_withFocus)

lemma escape_on_cell:
  assumes "element from = cellElement from" and "keyCodesDistinct kc"
  shows "onKeydown_key kc m from (int (escape kc)) dispatched = returns m []"
  using assms(1) keyCodes_later_earlier [OF assms(2)] keyCodes_pos [OF assms(2)]
  by (simp add: onKeydown_key_def neg_code)

lemma enter_off_cell:
  assumes "element from \<noteq> cellElement from" and "keyCodesDistinct kc"
  shows "onKeydown_key kc m from (int (enter kc)) dispatched = returns m []"
proof (cases "widget from")
  case True
  from assms(2) have "enter kc \<noteq> escape kc" "enter kc \<noteq> f2Code"
    by (simp_all add: keyCodesDistinct_def)
  then show ?thesis
    by (simp add: widget_gate [OF True assms(1)])
next
  case False
  with assms(1) keyCodes_later_earlier [OF assms(2)] keyCodes_pos [OF assms(2)]
  show ?thesis
    by (simp add: onKeydown_key_def neg_code)
qed

lemma f2_off_cell:
  assumes "element from \<noteq> cellElement from" and "keyCodesDistinct kc" and "table' m = Some t"
  shows "onKeydown_key kc m from (int f2Code) dispatched =
     withFocus dispatched m [PreventDefault, MoveFocusBy t from \<lparr>y = Finite 0, x = Finite 0\<rparr>]"
proof (cases "widget from")
  case True
  show ?thesis
    by (simp add: widget_gate [OF True assms(1)] moveFocusBy_bound [OF assms(3)])
next
  case False
  with assms(1) keyCodes_later_earlier [OF assms(2)] keyCodes_pos [OF assms(2)]
  show ?thesis
    by (simp add: onKeydown_key_def neg_code moveFocusBy_bound [OF assms(3)])
qed

lemma escape_off_cell:
  assumes "element from \<noteq> cellElement from" and "keyCodesDistinct kc" and "table' m = Some t"
  shows "onKeydown_key kc m from (int (escape kc)) dispatched =
     withFocus dispatched m [PreventDefault, MoveFocusBy t from \<lparr>y = Finite 0, x = Finite 0\<rparr>]"
proof (cases "widget from")
  case True
  show ?thesis
    by (simp add: widget_gate [OF True assms(1)] moveFocusBy_bound [OF assms(3)])
next
  case False
  with assms(1) keyCodes_later_earlier [OF assms(2)] keyCodes_pos [OF assms(2)]
  show ?thesis
    by (simp add: onKeydown_key_def neg_code moveFocusBy_bound [OF assms(3)])
qed

text \<open>
  Claim C4. A keydown event reaches a model whose focused cell is set. Whatever the event,
  the handler does not throw and either makes no call, or calls \<open>preventDefault\<close> and
  right after it one move, followed only by the calls of the focus handlers that the move
  set off. On the cell element, Enter and F2 call \<open>preventDefault\<close> and then
  \<open>moveFocusIn\<close> for the focused cell, and Escape makes no call and changes nothing. Off
  the cell element, Escape and F2 call \<open>preventDefault\<close> and then \<open>moveFocusBy\<close> from the
  focused cell with the delta \<open>(0, 0)\<close>, and Enter makes no call and changes nothing.
\<close>

theorem preventDefault_before_move:
  assumes "admissible kc ce evs initial" and "m = run kc ce evs initial"
    and "focusedCell m = Some from" and "keyCodesDistinct kc"
  shows "\<exists>t. table' m = Some t \<and>
    thrown (onKeydown kc event dispatched m) = None \<and>
    (calls (onKeydown kc event dispatched m) = [] \<or>
     (\<exists>c. isMove c \<and>
        calls (onKeydown kc event dispatched m) =
          PreventDefault # c # snd (applyFocus dispatched m))) \<and>
    (element from = cellElement from \<longrightarrow>
       onKeydown kc (press (enter kc)) dispatched m =
         withFocus dispatched m [PreventDefault, MoveFocusIn from] \<and>
       onKeydown kc (press f2Code) dispatched m =
         withFocus dispatched m [PreventDefault, MoveFocusIn from] \<and>
       onKeydown kc (press (escape kc)) dispatched m = returns m []) \<and>
    (element from \<noteq> cellElement from \<longrightarrow>
       onKeydown kc (press (enter kc)) dispatched m = returns m [] \<and>
       onKeydown kc (press f2Code) dispatched m =
         withFocus dispatched m
           [PreventDefault, MoveFocusBy t from \<lparr>y = Finite 0, x = Finite 0\<rparr>] \<and>
       onKeydown kc (press (escape kc)) dispatched m =
         withFocus dispatched m
           [PreventDefault, MoveFocusBy t from \<lparr>y = Finite 0, x = Finite 0\<rparr>])"
proof -
  from assms(1,3) obtain t where t: "table' m = Some t"
    unfolding assms(2) by (rule focused_bound)
  from shape_onKeydown [OF t, of dispatched kc event]
  have shape: "thrown (onKeydown kc event dispatched m) = None \<and>
    (calls (onKeydown kc event dispatched m) = [] \<or>
     (\<exists>c. isMove c \<and>
        calls (onKeydown kc event dispatched m) =
          PreventDefault # c # snd (applyFocus dispatched m)))"
    unfolding preventsBeforeMove_def by (auto split: list.splits)
  have on_cell: "element from = cellElement from \<longrightarrow>
       onKeydown kc (press (enter kc)) dispatched m =
         withFocus dispatched m [PreventDefault, MoveFocusIn from] \<and>
       onKeydown kc (press f2Code) dispatched m =
         withFocus dispatched m [PreventDefault, MoveFocusIn from] \<and>
       onKeydown kc (press (escape kc)) dispatched m = returns m []"
    by (simp add: onKeydown_press [OF assms(3)] enter_on_cell [OF _ assms(4)]
        f2_on_cell [OF _ assms(4)] escape_on_cell [OF _ assms(4)])
  have off_cell: "element from \<noteq> cellElement from \<longrightarrow>
       onKeydown kc (press (enter kc)) dispatched m = returns m [] \<and>
       onKeydown kc (press f2Code) dispatched m =
         withFocus dispatched m
           [PreventDefault, MoveFocusBy t from \<lparr>y = Finite 0, x = Finite 0\<rparr>] \<and>
       onKeydown kc (press (escape kc)) dispatched m =
         withFocus dispatched m
           [PreventDefault, MoveFocusBy t from \<lparr>y = Finite 0, x = Finite 0\<rparr>]"
    by (simp add: onKeydown_press [OF assms(3)] enter_off_cell [OF _ assms(4)]
        f2_off_cell [OF _ assms(4) t] escape_off_cell [OF _ assms(4) t])
  from t shape on_cell off_cell show ?thesis by blast
qed

text \<open>
  On the example cell, Enter and F2 move into the widget and Escape does nothing; on the
  example widget, Enter does nothing and Escape moves focus to the cell.
\<close>

theorem preventDefault_before_move_witness:
  "admissible exampleKeyCode (=) exampleEvents initial \<and>
   admissible exampleKeyCode (=) exampleWidgetEvents initial \<and>
   focusedCell (run exampleKeyCode (=) exampleEvents initial) = Some exampleCell \<and>
   focusedCell (run exampleKeyCode (=) exampleWidgetEvents initial) = Some exampleWidget \<and>
   keyCodesDistinct exampleKeyCode \<and>
   element exampleCell = cellElement exampleCell \<and>
   onKeydown exampleKeyCode (press 13) [] (run exampleKeyCode (=) exampleEvents initial) =
     returns (run exampleKeyCode (=) exampleEvents initial)
       [PreventDefault, MoveFocusIn exampleCell] \<and>
   onKeydown exampleKeyCode (press 113) [] (run exampleKeyCode (=) exampleEvents initial) =
     returns (run exampleKeyCode (=) exampleEvents initial)
       [PreventDefault, MoveFocusIn exampleCell] \<and>
   onKeydown exampleKeyCode (press 27) [] (run exampleKeyCode (=) exampleEvents initial) =
     returns (run exampleKeyCode (=) exampleEvents initial) [] \<and>
   element exampleWidget \<noteq> cellElement exampleWidget \<and>
   onKeydown exampleKeyCode (press 13) [] (run exampleKeyCode (=) exampleWidgetEvents initial) =
     returns (run exampleKeyCode (=) exampleWidgetEvents initial) [] \<and>
   onKeydown exampleKeyCode (press 27) exampleToCell
       (run exampleKeyCode (=) exampleWidgetEvents initial) =
     returns
       \<lparr>pageSize' = 0, table' = Some 2, prevFocusedCell = Some exampleWidgetCell,
        focusedCell = Some exampleWidgetCell, cleanup = Installed 0\<rparr>
       [PreventDefault, MoveFocusBy 2 exampleWidget \<lparr>y = Finite 0, x = Finite 0\<rparr>,
        UpdateTableIndices 2 (Some exampleWidgetCell)] \<and>
   thrown (onKeydown exampleKeyCode (press 38) [] (run exampleKeyCode (=) exampleEvents initial))
     = None"
proof -
  have f: "focusedCell (run exampleKeyCode (=) exampleEvents initial) = Some exampleCell"
    and g: "focusedCell (run exampleKeyCode (=) exampleWidgetEvents initial) = Some exampleWidget"
    by (simp_all add: example_run example_widget_run)
  have e: "element exampleCell = cellElement exampleCell"
    and ne: "element exampleWidget \<noteq> cellElement exampleWidget"
    by (simp_all add: exampleCell_def exampleWidget_def)
  have kc: "escape exampleKeyCode = 27" "enter exampleKeyCode = 13" "f2Code = 113"
    by (simp_all add: exampleKeyCode_def f2Code_def)
  have t: "table' (run exampleKeyCode (=) exampleWidgetEvents initial) = Some 2"
    by (simp add: example_widget_run)
  from preventDefault_before_move [OF example_admissible refl f example_keyCodes, of "press 38" "[]"]
    preventDefault_before_move [OF example_widget_admissible refl g example_keyCodes,
      of "press 38" "[]"]
    preventDefault_before_move [OF example_widget_admissible refl g example_keyCodes,
      of "press 38" exampleToCell]
  show ?thesis
    using example_admissible example_widget_admissible f g e ne example_keyCodes t
    by (simp add: kc withFocus_nil withFocus_def example_widget_applyFocus)
qed

subsection \<open>What the key handler changes\<close>

lemma frame_if:
  "keydownFrame dispatched m a \<Longrightarrow> keydownFrame dispatched m b \<Longrightarrow>
     keydownFrame dispatched m (if c then a else b)"
  by simp

lemma frame_moveFocusBy: "keydownFrame dispatched m (moveFocusBy m pre from d dispatched)"
  by (simp add: keydownFrame_def moveFocusBy_def case_prod_beta split: sum.splits)

lemma frame_moveFocusIn: "keydownFrame dispatched m (moveFocusIn m pre from dispatched)"
  by (simp add: keydownFrame_def moveFocusIn_def case_prod_beta)

lemma frame_returns: "keydownFrame dispatched m (returns m cs)"
  by (simp add: keydownFrame_def)

lemma frame_onKeydown_key: "keydownFrame dispatched m (onKeydown_key kc m from key dispatched)"
  unfolding onKeydown_key_def
  by (intro frame_if frame_moveFocusBy frame_moveFocusIn frame_returns)

lemma frame_onKeydown: "keydownFrame dispatched m (onKeydown kc event dispatched m)"
  by (simp add: onKeydown_def frame_onKeydown_key frame_returns split: option.splits)

lemma own_if:
  "keydownCalls dispatched m a \<Longrightarrow> keydownCalls dispatched m b \<Longrightarrow>
     keydownCalls dispatched m (if c then a else b)"
  by simp

lemma own_moveFocusBy:
  "keydownCalls dispatched m (moveFocusBy m [PreventDefault] from d dispatched)"
  by (simp add: keydownCalls_def moveFocusBy_def case_prod_beta split: sum.splits)

lemma own_moveFocusIn:
  "keydownCalls dispatched m (moveFocusIn m [PreventDefault] from dispatched)"
  by (simp add: keydownCalls_def moveFocusIn_def case_prod_beta)

lemma own_returns: "keydownCalls dispatched m (returns m [])"
  by (simp add: keydownCalls_def)

lemma own_onKeydown_key: "keydownCalls dispatched m (onKeydown_key kc m from key dispatched)"
  unfolding onKeydown_key_def
  by (intro own_if own_moveFocusBy own_moveFocusIn own_returns)

lemma own_onKeydown: "keydownCalls dispatched m (onKeydown kc event dispatched m)"
  by (simp add: onKeydown_def own_onKeydown_key own_returns split: option.splits)

text \<open>
  Claim C10 says that \<open>focusedCell\<close> and \<open>prevFocusedCell\<close> are the same before and
  after the key handler. They are not when the move applies focus to another cell: with
  the example cell focused, Right calls \<open>moveFocusBy\<close>, the browser dispatches \<open>focusout\<close>
  and \<open>focusin\<close> for the next cell before the handler returns, and both fields hold the
  next cell afterwards.
\<close>

theorem onKeydown_changes_focus_counterexample:
  "focusedCell (run exampleKeyCode (=) exampleEvents initial) = Some exampleCell \<and>
   prevFocusedCell (run exampleKeyCode (=) exampleEvents initial) = Some exampleCell \<and>
   onKeydown exampleKeyCode (press 39) exampleDispatched
       (run exampleKeyCode (=) exampleEvents initial) =
     returns
       \<lparr>pageSize' = 10, table' = Some 2, prevFocusedCell = Some exampleNextCell,
        focusedCell = Some exampleNextCell, cleanup = Installed 0\<rparr>
       [PreventDefault, MoveFocusBy 2 exampleCell \<lparr>y = Finite 0, x = Finite 1\<rparr>,
        UpdateTableIndices 2 (Some exampleNextCell)] \<and>
   state (onKeydown exampleKeyCode (press 39) exampleDispatched
       (run exampleKeyCode (=) exampleEvents initial)) \<noteq>
     run exampleKeyCode (=) exampleEvents initial"
proof -
  have f: "focusedCell (run exampleKeyCode (=) exampleEvents initial) = Some exampleCell"
    and p: "prevFocusedCell (run exampleKeyCode (=) exampleEvents initial) = Some exampleCell"
    and t: "table' (run exampleKeyCode (=) exampleEvents initial) = Some 2"
    by (simp_all add: example_run)
  have key: "onKeydown_key exampleKeyCode (run exampleKeyCode (=) exampleEvents initial)
      exampleCell 39 exampleDispatched =
    moveFocusBy (run exampleKeyCode (=) exampleEvents initial) [PreventDefault] exampleCell
      \<lparr>y = Finite 0, x = Finite 1\<rparr> exampleDispatched"
    by (simp add: onKeydown_key_def exampleKeyCode_def exampleCell_def)
  have out: "onKeydown exampleKeyCode (press 39) exampleDispatched
       (run exampleKeyCode (=) exampleEvents initial) =
     returns
       \<lparr>pageSize' = 10, table' = Some 2, prevFocusedCell = Some exampleNextCell,
        focusedCell = Some exampleNextCell, cleanup = Installed 0\<rparr>
       [PreventDefault, MoveFocusBy 2 exampleCell \<lparr>y = Finite 0, x = Finite 1\<rparr>,
        UpdateTableIndices 2 (Some exampleNextCell)]"
    using key
    by (simp add: onKeydown_press [OF f] moveFocusBy_bound [OF t] withFocus_def
        example_applyFocus)
  have "exampleNextCell \<noteq> exampleCell"
    by (simp add: exampleNextCell_def exampleCell_def)
  then have "state (onKeydown exampleKeyCode (press 39) exampleDispatched
       (run exampleKeyCode (=) exampleEvents initial)) \<noteq>
     run exampleKeyCode (=) exampleEvents initial"
    unfolding out by (simp add: example_run)
  with f p out show ?thesis by simp
qed

text \<open>
  Claim C10, amended. For every keydown event and every model, the key handler itself
  assigns no field: the model after it is the model before it, or the one the focus
  handlers left while \<open>moveFocusBy\<close> or \<open>moveFocusIn\<close> applied focus; it is the model
  before it whenever no focus event is dispatched. The page size, the bound table and the
  cleanup closure are the same before and after in every case. The calls are none, or
  \<open>preventDefault\<close> alone when the table getter throws, or \<open>preventDefault\<close> and one of
  \<open>moveFocusBy\<close> and \<open>moveFocusIn\<close>, followed only by the calls of those focus handlers.
\<close>

theorem onKeydown_frame:
  "(state (onKeydown kc event dispatched m) = m \<or>
    state (onKeydown kc event dispatched m) = fst (applyFocus dispatched m)) \<and>
   state (onKeydown kc event [] m) = m \<and>
   pageSize' (state (onKeydown kc event dispatched m)) = pageSize' m \<and>
   table' (state (onKeydown kc event dispatched m)) = table' m \<and>
   cleanup (state (onKeydown kc event dispatched m)) = cleanup m \<and>
   (calls (onKeydown kc event dispatched m) = [] \<or>
    calls (onKeydown kc event dispatched m) = [PreventDefault] \<or>
    (\<exists>c. isMove c \<and>
       calls (onKeydown kc event dispatched m) =
         PreventDefault # c # snd (applyFocus dispatched m)))"
proof (intro conjI)
  show "state (onKeydown kc event dispatched m) = m \<or>
      state (onKeydown kc event dispatched m) = fst (applyFocus dispatched m)"
    using frame_onKeydown [of dispatched m kc event] by (simp add: keydownFrame_def)
  show "state (onKeydown kc event [] m) = m"
    using frame_onKeydown [of "[]" m kc event] by (simp add: keydownFrame_def)
  show "pageSize' (state (onKeydown kc event dispatched m)) = pageSize' m"
    and "table' (state (onKeydown kc event dispatched m)) = table' m"
    and "cleanup (state (onKeydown kc event dispatched m)) = cleanup m"
    using kept_onKeydown [of m kc event dispatched] by (simp_all add: kept_def)
  show "calls (onKeydown kc event dispatched m) = [] \<or>
      calls (onKeydown kc event dispatched m) = [PreventDefault] \<or>
      (\<exists>c. isMove c \<and>
         calls (onKeydown kc event dispatched m) =
           PreventDefault # c # snd (applyFocus dispatched m))"
    using own_onKeydown [of dispatched m kc event]
    unfolding keydownCalls_def by (auto split: list.splits)
qed

subsection \<open>Mutations\<close>

lemma kept_reconcile: "kept m (fst (reconcile ce t ns dispatched m))"
proof (induction ns arbitrary: m dispatched)
  case Nil
  show ?case by (simp add: kept_refl)
next
  case (Cons n ns)
  let ?m1 = "fst (applyFocus (nextDispatched dispatched) m)"
  from kept_trans [OF kept_applyFocus Cons.IH [of ?m1 "tl dispatched"]]
  have "kept m (fst (reconcile ce t ns (tl dispatched) ?m1))" .
  with Cons.IH [of m dispatched] show ?case
    by (simp add: kept_refl case_prod_beta split: option.splits)
qed

lemma reconcile_append:
  "reconcile ce t (ns @ ns') dispatched m =
     (case reconcile ce t ns dispatched m of
        (m1, cs1, remaining1) \<Rightarrow>
          (case reconcile ce t ns' remaining1 m1 of
             (m2, cs2, remaining2) \<Rightarrow> (m2, cs1 @ cs2, remaining2)))"
proof (induction ns arbitrary: m dispatched)
  case Nil
  show ?case by (simp add: case_prod_beta)
next
  case (Cons n ns)
  show ?case
  proof (cases "prevFocusedCell m")
    case None
    then show ?thesis by (cases ns') (simp_all add: case_prod_beta)
  next
    case (Some prev)
    then show ?thesis
      by (simp add: Cons.IH case_prod_beta)
  qed
qed

lemma removedNodesLoop_bound:
  assumes "table' m = Some t" and "prevFocusedCell m \<noteq> None"
  shows "removedNodesLoop ce m dispatched ns =
     (case reconcile ce t ns dispatched m of
        (m', cs, remaining) \<Rightarrow> (returns m' cs, remaining))"
  using assms
proof (induction ns arbitrary: m dispatched)
  case Nil
  show ?case by simp
next
  case (Cons n ns)
  from Cons.prems(2) obtain prev where prev: "prevFocusedCell m = Some prev" by auto
  show ?case
  proof (cases "ce n (element prev)")
    case False
    with Cons.IH [OF Cons.prems, of dispatched] show ?thesis by (simp add: prev)
  next
    case True
    let ?m1 = "fst (applyFocus (nextDispatched dispatched) m)"
    from kept_applyFocus [of m "nextDispatched dispatched"] Cons.prems
    have "table' ?m1 = Some t" and "prevFocusedCell ?m1 \<noteq> None"
      by (simp_all add: kept_def)
    from Cons.IH [OF this, of "tl dispatched"] True show ?thesis
      by (simp add: prev moveFocusBy_bound [OF Cons.prems(1)] withFocus_def Let_def
          case_prod_beta prepend_returns)
  qed
qed

lemma removedNodesOf_Cons:
  "removedNodesOf (r # recs) =
     (if type r = childList then removedNodes r @ removedNodesOf recs else removedNodesOf recs)"
  by (simp add: removedNodesOf_def)

lemma recordsLoop_bound:
  assumes "table' m = Some t" and "prevFocusedCell m \<noteq> None"
  shows "recordsLoop ce m dispatched recs =
     (case reconcile ce t (removedNodesOf recs) dispatched m of
        (m', cs, remaining) \<Rightarrow> (returns m' cs, remaining))"
  using assms
proof (induction recs arbitrary: m dispatched)
  case Nil
  show ?case by (simp add: removedNodesOf_def)
next
  case (Cons r recs)
  show ?case
  proof (cases "type r = childList")
    case False
    with Cons.IH [OF Cons.prems, of dispatched] show ?thesis
      by (simp add: removedNodesOf_Cons)
  next
    case True
    let ?inner = "reconcile ce t (removedNodes r) dispatched m"
    from kept_reconcile [of m ce t "removedNodes r" dispatched] Cons.prems
    have "table' (fst ?inner) = Some t" and "prevFocusedCell (fst ?inner) \<noteq> None"
      by (simp_all add: kept_def)
    from Cons.IH [OF this, of "snd (snd ?inner)"] True show ?thesis
      by (simp add: removedNodesOf_Cons removedNodesLoop_bound [OF Cons.prems]
          reconcile_append case_prod_beta prepend_returns)
  qed
qed

lemma reconcile_quiet:
  assumes "prevFocusedCell m = Some prev"
  shows "reconcile ce t ns [] m =
     (m, map (\<lambda>n. MoveFocusBy t prev \<lparr>y = Finite 0, x = Finite 0\<rparr>)
        (filter (\<lambda>n. ce n (element prev)) ns), [])"
  by (induction ns) (simp_all add: assms nextDispatched_def)

lemma onMutation_bound:
  assumes "table' m = Some t" and "prevFocusedCell m \<noteq> None"
  shows "onMutation ce recs dispatched m =
     (case reconcile ce t (removedNodesOf recs) dispatched m of
        (m', cs, remaining) \<Rightarrow>
          returns m'
            (cs @ [UpdateTableIndices t
               (case focusedCell m' of Some cell \<Rightarrow> Some cell | None \<Rightarrow> prevFocusedCell m')]))"
proof -
  from kept_reconcile [of m ce t "removedNodesOf recs" dispatched] assms(1)
  have "table' (fst (reconcile ce t (removedNodesOf recs) dispatched m)) = Some t"
    by (simp add: kept_def)
  with assms(2) show ?thesis
    by (auto simp add: onMutation_def recordsLoop_bound [OF assms] case_prod_beta table_bound
        nullish_def split: option.splits)
qed

text \<open>
  Claim C5. A batch of mutation records reaches a model. When \<open>prevFocusedCell\<close> is null the
  handler makes no call and changes nothing. Otherwise it goes through the removed nodes of
  the records of type \<open>childList\<close>, in order, and for every one that contains or equals
  the previously focused element it calls \<open>moveFocusBy\<close> with the delta \<open>(0, 0)\<close> from
  \<open>prevFocusedCell\<close>, the field being read at that moment; after all records it calls
  \<open>updateTableIndices\<close> with \<open>focusedCell\<close> if it is set and \<open>prevFocusedCell\<close> if not,
  as they are then. When no focus event is dispatched during the moves, the model is
  unchanged and the moves are from the cell that was the previous one at the start.
\<close>

theorem onMutation_reconciles:
  assumes "admissible kc ce evs initial" and "m = run kc ce evs initial"
  shows "(prevFocusedCell m = None \<longrightarrow>
      onMutation ce mutationRecords dispatched m = returns m []) \<and>
    (prevFocusedCell m \<noteq> None \<longrightarrow>
      (\<exists>t. table' m = Some t \<and>
         (case reconcile ce t (removedNodesOf mutationRecords) dispatched m of
            (m', cs, remaining) \<Rightarrow>
              onMutation ce mutationRecords dispatched m =
                returns m'
                  (cs @ [UpdateTableIndices t
                     (case focusedCell m' of
                        Some cell \<Rightarrow> Some cell
                      | None \<Rightarrow> prevFocusedCell m')])))) \<and>
    (\<forall>prev. prevFocusedCell m = Some prev \<longrightarrow>
      (\<exists>t. table' m = Some t \<and>
         onMutation ce mutationRecords [] m =
           returns m
             (reconcileMoves ce t prev mutationRecords @
              [UpdateTableIndices t
                 (case focusedCell m of Some cell \<Rightarrow> Some cell | None \<Rightarrow> Some prev)])))"
proof (intro conjI allI impI)
  assume "prevFocusedCell m = None"
  then show "onMutation ce mutationRecords dispatched m = returns m []"
    by (rule onMutation_unfocused)
next
  assume prev: "prevFocusedCell m \<noteq> None"
  with assms(1) obtain t where t: "table' m = Some t"
    unfolding assms(2) by (rule prev_bound)
  from onMutation_bound [OF t prev, of ce mutationRecords dispatched] t
  show "\<exists>t. table' m = Some t \<and>
      (case reconcile ce t (removedNodesOf mutationRecords) dispatched m of
         (m', cs, remaining) \<Rightarrow>
           onMutation ce mutationRecords dispatched m =
             returns m'
               (cs @ [UpdateTableIndices t
                  (case focusedCell m' of
                     Some cell \<Rightarrow> Some cell
                   | None \<Rightarrow> prevFocusedCell m')]))"
    by (auto simp: case_prod_beta)
next
  fix prev
  assume prev: "prevFocusedCell m = Some prev"
  then have set: "prevFocusedCell m \<noteq> None" by simp
  with assms(1) obtain t where t: "table' m = Some t"
    unfolding assms(2) by (rule prev_bound)
  from onMutation_bound [OF t set, of ce mutationRecords "[]"] t
  show "\<exists>t. table' m = Some t \<and>
      onMutation ce mutationRecords [] m =
        returns m
          (reconcileMoves ce t prev mutationRecords @
           [UpdateTableIndices t
              (case focusedCell m of Some cell \<Rightarrow> Some cell | None \<Rightarrow> Some prev)])"
    using prev by (simp add: reconcile_quiet [OF prev] reconcileMoves_def split: option.splits)
qed

text \<open>
  Before any focus the example batch causes no call. After the example cell was focused,
  its element is removed by the first record: the move focuses the next cell, so that the
  third record, which removes the same element again, causes no move, and the refresh is
  for the next cell. After focus has left the table and with no focus event dispatched,
  both records cause a move and the refresh is for the previous cell.
\<close>

theorem onMutation_reconciles_witness:
  "admissible exampleKeyCode (=) [Init 2 0] initial \<and>
   prevFocusedCell (run exampleKeyCode (=) [Init 2 0] initial) = None \<and>
   onMutation (=) exampleRecords [exampleDispatched] (run exampleKeyCode (=) [Init 2 0] initial) =
     returns (run exampleKeyCode (=) [Init 2 0] initial) [] \<and>
   admissible exampleKeyCode (=) exampleEvents initial \<and>
   prevFocusedCell (run exampleKeyCode (=) exampleEvents initial) = Some exampleCell \<and>
   onMutation (=) exampleRecords [exampleDispatched]
       (run exampleKeyCode (=) exampleEvents initial) =
     returns
       \<lparr>pageSize' = 10, table' = Some 2, prevFocusedCell = Some exampleNextCell,
        focusedCell = Some exampleNextCell, cleanup = Installed 0\<rparr>
       [MoveFocusBy 2 exampleCell \<lparr>y = Finite 0, x = Finite 0\<rparr>,
        UpdateTableIndices 2 (Some exampleNextCell),
        UpdateTableIndices 2 (Some exampleNextCell)] \<and>
   admissible exampleKeyCode (=) exampleLeftEvents initial \<and>
   prevFocusedCell (run exampleKeyCode (=) exampleLeftEvents initial) = Some exampleCell \<and>
   focusedCell (run exampleKeyCode (=) exampleLeftEvents initial) = None \<and>
   onMutation (=) exampleRecords [] (run exampleKeyCode (=) exampleLeftEvents initial) =
     returns (run exampleKeyCode (=) exampleLeftEvents initial)
       [MoveFocusBy 2 exampleCell \<lparr>y = Finite 0, x = Finite 0\<rparr>,
        MoveFocusBy 2 exampleCell \<lparr>y = Finite 0, x = Finite 0\<rparr>,
        UpdateTableIndices 2 (Some exampleCell)]"
proof -
  have a: "admissible exampleKeyCode (=) [Init 2 0] initial"
    by simp
  have n: "prevFocusedCell (run exampleKeyCode (=) [Init 2 0] initial) = None"
    by (simp add: state_simps initial_def)
  have p: "prevFocusedCell (run exampleKeyCode (=) exampleEvents initial) = Some exampleCell"
    and t: "table' (run exampleKeyCode (=) exampleEvents initial) = Some 2"
    by (simp_all add: example_run)
  have pl: "prevFocusedCell (run exampleKeyCode (=) exampleLeftEvents initial) = Some exampleCell"
    and tl: "table' (run exampleKeyCode (=) exampleLeftEvents initial) = Some 2"
    and fl: "focusedCell (run exampleKeyCode (=) exampleLeftEvents initial) = None"
    by (simp_all add: example_left_run)
  have nodes: "removedNodesOf exampleRecords = [4, 5, 5]"
    by (simp add: removedNodesOf_def exampleRecords_def)
  have r: "reconcile (=) 2 [4, 5, 5] [exampleDispatched]
      (run exampleKeyCode (=) exampleEvents initial) =
    (\<lparr>pageSize' = 10, table' = Some 2, prevFocusedCell = Some exampleNextCell,
      focusedCell = Some exampleNextCell, cleanup = Installed 0\<rparr>,
     [MoveFocusBy 2 exampleCell \<lparr>y = Finite 0, x = Finite 0\<rparr>,
      UpdateTableIndices 2 (Some exampleNextCell)], [])"
    by (simp add: p nextDispatched_def example_applyFocus exampleCell_def exampleNextCell_def)
  have q: "reconcileMoves (=) 2 exampleCell exampleRecords =
      [MoveFocusBy 2 exampleCell \<lparr>y = Finite 0, x = Finite 0\<rparr>,
       MoveFocusBy 2 exampleCell \<lparr>y = Finite 0, x = Finite 0\<rparr>]"
    by (simp add: reconcileMoves_def nodes exampleCell_def)
  from onMutation_reconciles [OF a refl, of exampleRecords "[exampleDispatched]"]
  have first: "onMutation (=) exampleRecords [exampleDispatched]
      (run exampleKeyCode (=) [Init 2 0] initial) =
    returns (run exampleKeyCode (=) [Init 2 0] initial) []"
    using n by blast
  from onMutation_reconciles [OF example_admissible refl, of exampleRecords "[exampleDispatched]"] p
  obtain t' where t': "table' (run exampleKeyCode (=) exampleEvents initial) = Some t'"
    and looped: "case reconcile (=) t' (removedNodesOf exampleRecords) [exampleDispatched]
        (run exampleKeyCode (=) exampleEvents initial) of
      (m', cs, remaining) \<Rightarrow>
        onMutation (=) exampleRecords [exampleDispatched]
          (run exampleKeyCode (=) exampleEvents initial) =
        returns m'
          (cs @ [UpdateTableIndices t'
             (case focusedCell m' of Some cell \<Rightarrow> Some cell | None \<Rightarrow> prevFocusedCell m')])"
    by auto
  from t' t have t2: "t' = 2" by simp
  from looped
  have second: "onMutation (=) exampleRecords [exampleDispatched]
       (run exampleKeyCode (=) exampleEvents initial) =
     returns
       \<lparr>pageSize' = 10, table' = Some 2, prevFocusedCell = Some exampleNextCell,
        focusedCell = Some exampleNextCell, cleanup = Installed 0\<rparr>
       [MoveFocusBy 2 exampleCell \<lparr>y = Finite 0, x = Finite 0\<rparr>,
        UpdateTableIndices 2 (Some exampleNextCell),
        UpdateTableIndices 2 (Some exampleNextCell)]"
    unfolding t2 nodes r by simp
  from onMutation_reconciles [OF example_left_admissible refl, of exampleRecords "[]"]
  have third: "onMutation (=) exampleRecords [] (run exampleKeyCode (=) exampleLeftEvents initial) =
     returns (run exampleKeyCode (=) exampleLeftEvents initial)
       [MoveFocusBy 2 exampleCell \<lparr>y = Finite 0, x = Finite 0\<rparr>,
        MoveFocusBy 2 exampleCell \<lparr>y = Finite 0, x = Finite 0\<rparr>,
        UpdateTableIndices 2 (Some exampleCell)]"
    using pl tl fl by (auto simp: q)
  from a n first example_admissible p second example_left_admissible pl fl third
  show ?thesis by blast
qed

end
